theory Spec2Isabelle
  imports Main "HOL-Library.Word" "HOL-Library.AList" "HOL-Library.Sublist"
begin

section \<open>The statusLine watcher of \<^verbatim>\<open>src/statusline-capture.ts\<close>\<close>

text \<open>
  The class \<^verbatim>\<open>StatusLineWatcher\<close> tails one JSON-lines log file per agent. Its methods
  mutate two JavaScript \<^verbatim>\<open>Map\<close>s and a flag, and they call into the file system, the
  logger, \<^verbatim>\<open>JSON.parse\<close> and the event emitter. The embedding passes one state record
  through every method: the fields of the object, the part of the file system the
  methods touch, the \<^verbatim>\<open>FSWatcher\<close> objects that are open, the wall clock, and what
  has been emitted and logged so far.
\<close>

subsection \<open>Strings, bytes and paths\<close>

text \<open>
  A \<^verbatim>\<open>Buffer\<close> is a list of bytes and a JavaScript string is a list of UTF-16 code
  units; \<^verbatim>\<open>.length\<close> is the length of the list in both cases. Agent and team names
  are HOL strings. A path is the list of its segments.
\<close>

type_synonym byte = "8 word"
type_synonym jsstring = "16 word list"
type_synonym path = "string list"

text \<open>
  \<^verbatim>\<open>join(dir, name)\<close> of \<^verbatim>\<open>node:path\<close>, for a \<^verbatim>\<open>name\<close> that is one segment (no
  separator, not \<^verbatim>\<open>.\<close> or \<^verbatim>\<open>..\<close>).
\<close>

definition join :: "path \<Rightarrow> string \<Rightarrow> path" where
  "join dir name = dir @ [name]"

text \<open>
  \<^verbatim>\<open>teamDir\<close> comes from \<^verbatim>\<open>./paths.js\<close>, which is not part of the source at hand: it
  is a parameter of every definition that computes a path.
\<close>

definition statusLineDir :: "(string \<Rightarrow> path) \<Rightarrow> string \<Rightarrow> path" where
  "statusLineDir teamDir team = join (teamDir team) ''statusline''"

definition statusLineLogPath :: "(string \<Rightarrow> path) \<Rightarrow> string \<Rightarrow> string \<Rightarrow> path" where
  "statusLineLogPath teamDir team agent = join (statusLineDir teamDir team) (agent @ ''.jsonl'')"

subsection \<open>Decoding a file as UTF-8\<close>

text \<open>
  \<^verbatim>\<open>readFileSync(path, "utf-8")\<close> decodes the bytes of the file into a string. Ill-formed
  input does not fail: every maximal ill-formed part becomes one U+FFFD. The decoder
  is the one of the Encoding standard: it is either between characters (\<open>Start\<close>) or
  inside a multi-byte character, knowing how many bytes are still needed, the bits
  read so far and the range allowed for the next byte.
\<close>

datatype utf8_state = Start | Pending nat nat byte byte

text \<open>A code point as UTF-16: one unit, or a surrogate pair above the basic plane.\<close>

definition utf16_units :: "nat \<Rightarrow> jsstring" where
  "utf16_units cp =
     (if cp < 0x10000 then [of_nat cp]
      else [of_nat (0xD800 + (cp - 0x10000) div 0x400), of_nat (0xDC00 + (cp - 0x10000) mod 0x400)])"

text \<open>A byte read between characters: what is emitted and the state afterwards.\<close>

definition utf8_lead :: "byte \<Rightarrow> jsstring \<times> utf8_state" where
  "utf8_lead b =
     (if b \<le> 0x7F then ([ucast b], Start)
      else if 0xC2 \<le> b \<and> b \<le> 0xDF then ([], Pending 1 (unat b mod 0x20) 0x80 0xBF)
      else if 0xE0 \<le> b \<and> b \<le> 0xEF then
        ([], Pending 2 (unat b mod 0x10) (if b = 0xE0 then 0xA0 else 0x80) (if b = 0xED then 0x9F else 0xBF))
      else if 0xF0 \<le> b \<and> b \<le> 0xF4 then
        ([], Pending 3 (unat b mod 0x08) (if b = 0xF0 then 0x90 else 0x80) (if b = 0xF4 then 0x8F else 0xBF))
      else ([0xFFFD], Start))"

fun utf8_run :: "utf8_state \<Rightarrow> byte list \<Rightarrow> jsstring" where
  "utf8_run Start [] = []"
| "utf8_run (Pending n cp lo hi) [] = [0xFFFD]"
| "utf8_run Start (b # bs) = (case utf8_lead b of (out, s) \<Rightarrow> out @ utf8_run s bs)"
| "utf8_run (Pending n cp lo hi) (b # bs) =
     (if b < lo \<or> hi < b then
        (case utf8_lead b of (out, s) \<Rightarrow> 0xFFFD # out @ utf8_run s bs)
      else if n \<le> 1 then utf16_units (cp * 0x40 + unat b mod 0x40) @ utf8_run Start bs
      else utf8_run (Pending (n - 1) (cp * 0x40 + unat b mod 0x40) 0x80 0xBF) bs)"

definition utf8_decode :: "byte list \<Rightarrow> jsstring" where
  "utf8_decode bs = utf8_run Start bs"

subsection \<open>The string methods used by the watcher\<close>

text \<open>
  \<^verbatim>\<open>String.prototype.trim\<close> removes white space and line terminators of ECMAScript
  from both ends.
\<close>

definition is_ws :: "16 word \<Rightarrow> bool" where
  "is_ws c \<longleftrightarrow>
     c \<in> set [0x09, 0x0A, 0x0B, 0x0C, 0x0D, 0x20, 0xA0, 0x1680, 0x2000, 0x2001, 0x2002, 0x2003,
              0x2004, 0x2005, 0x2006, 0x2007, 0x2008, 0x2009, 0x200A, 0x2028, 0x2029, 0x202F,
              0x205F, 0x3000, 0xFEFF]"

definition trimStart :: "jsstring \<Rightarrow> jsstring" where
  "trimStart s = dropWhile is_ws s"

definition trimEnd :: "jsstring \<Rightarrow> jsstring" where
  "trimEnd s = rev (dropWhile is_ws (rev s))"

definition trim :: "jsstring \<Rightarrow> jsstring" where
  "trim s = trimEnd (trimStart s)"

text \<open>\<^verbatim>\<open>s.split("\n")\<close>: the pieces between line feeds; one empty piece for the empty string.\<close>

fun split_nl :: "jsstring \<Rightarrow> jsstring list" where
  "split_nl [] = [[]]"
| "split_nl (c # cs) =
     (if c = 0x0A then [] # split_nl cs
      else (case split_nl cs of l # ls \<Rightarrow> (c # l) # ls | [] \<Rightarrow> [[c]]))"

text \<open>\<^verbatim>\<open>s.slice(offset)\<close> for an offset that is not negative (\<open>slice\<close> is a constant of the word library).\<close>

definition slice_from :: "jsstring \<Rightarrow> nat \<Rightarrow> jsstring" where
  "slice_from s offset = drop offset s"

subsection \<open>The file system and the open watches\<close>

text \<open>
  A path names a directory or a regular file, which may be unreadable; the root is a
  directory. The calls of \<^verbatim>\<open>node:fs\<close> either return or throw a system error.
\<close>

datatype node = Directory | RegularFile "byte list" bool

datatype errno = ENOENT | EISDIR | EACCES | ENOTDIR | ENOSPC

text \<open>
  An \<^verbatim>\<open>FSWatcher\<close> that \<^verbatim>\<open>watch\<close> has returned and nobody has closed. Its listener is
  the closure of \<^verbatim>\<open>watchAgent\<close>, which holds the agent's name and the file's path.
\<close>

record fswatcher =
  wid :: nat
  wagent :: string
  wpath :: path

text \<open>
  An update event. The payload is whatever \<^verbatim>\<open>JSON.parse\<close> returns; the \<^verbatim>\<open>timestamp\<close> is
  what \<^verbatim>\<open>new Date().toISOString()\<close> returns when the event is built.
\<close>

record 'j StatusLineEvent =
  agentName :: string
  data :: 'j
  timestamp :: string

datatype level = Debug | Error

datatype message =
    Watching string path
  | FailedToWatch string errno
  | FailedToParse jsstring
  | ErrorReading errno

text \<open>
  The first four fields are the fields of the object (the two \<^verbatim>\<open>Map\<close>s keep their keys
  in insertion order, as association lists do). \<open>files\<close>, \<open>live\<close>, \<open>fresh\<close> and
  \<open>watchLimit\<close> are the operating system: the file tree, the open watches, the next
  watch identifier and how many watches may be open at once. \<open>clock\<close> and \<open>ticks\<close> are
  the wall clock: the readings it gives, in the order in which they are taken, and how
  many have been taken. \<open>emitted\<close> collects what \<^verbatim>\<open>emit("update", _)\<close> was called with
  and \<open>logged\<close> what the logger received. Listeners and the logger are taken to return
  normally and not to call the watcher.
\<close>

record 'j state =
  teamName :: string
  watchers :: "(string \<times> nat) list"
  fileOffsets :: "(path \<times> nat) list"
  stopped :: bool
  files :: "path \<rightharpoonup> node"
  live :: "fswatcher list"
  fresh :: nat
  watchLimit :: nat
  clock :: "nat \<Rightarrow> string"
  ticks :: nat
  emitted :: "'j StatusLineEvent list"
  logged :: "(level \<times> message) list"

text \<open>The constructor, in a given environment: both maps empty, not stopped.\<close>

definition StatusLineWatcher :: "string \<Rightarrow> (path \<rightharpoonup> node) \<Rightarrow> nat \<Rightarrow> (nat \<Rightarrow> string) \<Rightarrow> 'j state" where
  "StatusLineWatcher team fs limit clk =
     \<lparr>teamName = team, watchers = [], fileOffsets = [], stopped = False,
      files = fs, live = [], fresh = 0, watchLimit = limit, clock = clk, ticks = 0,
      emitted = [], logged = []\<rparr>"

definition log :: "level \<Rightarrow> message \<Rightarrow> 'j state \<Rightarrow> 'j state" where
  "log lv m st = st\<lparr>logged := logged st @ [(lv, m)]\<rparr>"

definition emit :: "'j StatusLineEvent \<Rightarrow> 'j state \<Rightarrow> 'j state" where
  "emit ev st = st\<lparr>emitted := emitted st @ [ev]\<rparr>"

definition is_dir :: "'j state \<Rightarrow> path \<Rightarrow> bool" where
  "is_dir st p \<longleftrightarrow> p = [] \<or> files st p = Some Directory"

definition existsSync :: "'j state \<Rightarrow> path \<Rightarrow> bool" where
  "existsSync st p \<longleftrightarrow> p = [] \<or> files st p \<noteq> None"

text \<open>\<^verbatim>\<open>readFileSync(path)\<close>: the bytes of a readable regular file.\<close>

definition readFileSync :: "'j state \<Rightarrow> path \<Rightarrow> errno + byte list" where
  "readFileSync st p =
     (if p = [] then Inl EISDIR
      else case files st p of
        None \<Rightarrow> Inl ENOENT
      | Some Directory \<Rightarrow> Inl EISDIR
      | Some (RegularFile bs r) \<Rightarrow> if r then Inr bs else Inl EACCES)"

text \<open>\<^verbatim>\<open>readFileSync(path, "utf-8")\<close>: the same, decoded.\<close>

definition readFileSync_utf8 :: "'j state \<Rightarrow> path \<Rightarrow> errno + jsstring" where
  "readFileSync_utf8 st p =
     (case readFileSync st p of Inl err \<Rightarrow> Inl err | Inr bs \<Rightarrow> Inr (utf8_decode bs))"

text \<open>
  \<^verbatim>\<open>writeFileSync(path, data)\<close>: replaces the content of a regular file, or creates the
  file in a directory that exists.
\<close>

definition writeFileSync :: "'j state \<Rightarrow> path \<Rightarrow> byte list \<Rightarrow> errno + 'j state" where
  "writeFileSync st p bs =
     (if p = [] then Inl EISDIR
      else case files st p of
        Some Directory \<Rightarrow> Inl EISDIR
      | Some (RegularFile old r) \<Rightarrow> Inr (st\<lparr>files := (files st)(p \<mapsto> RegularFile bs r)\<rparr>)
      | None \<Rightarrow>
          if is_dir st (butlast p) then Inr (st\<lparr>files := (files st)(p \<mapsto> RegularFile bs True)\<rparr>)
          else if existsSync st (butlast p) then Inl ENOTDIR
          else Inl ENOENT)"

text \<open>
  \<^verbatim>\<open>mkdirSync(dir, { recursive: true })\<close>: every prefix of the path that is missing
  becomes a directory; a regular file on the way is an error and nothing is created.
\<close>

definition mkdirSync_recursive :: "'j state \<Rightarrow> path \<Rightarrow> errno + 'j state" where
  "mkdirSync_recursive st dir =
     (if \<exists>q \<in> set (prefixes dir). q \<noteq> [] \<and> files st q \<noteq> None \<and> files st q \<noteq> Some Directory
      then Inl ENOTDIR
      else Inr (st\<lparr>files := (\<lambda>q. if q \<noteq> [] \<and> prefix q dir \<and> files st q = None
                                  then Some Directory else files st q)\<rparr>))"

text \<open>A regular file that its permissions do not allow to read.\<close>

definition unreadable :: "'j state \<Rightarrow> path \<Rightarrow> bool" where
  "unreadable st p = (case files st p of Some (RegularFile bs r) \<Rightarrow> \<not> r | _ \<Rightarrow> False)"

text \<open>
  The error with which \<^verbatim>\<open>watch(path, listener)\<close> throws, if it throws: the path does not
  exist, the file may not be read (a watch needs the permission to read), or the
  platform's limit of open watches is reached. A directory can be watched.
\<close>

definition watchError :: "'j state \<Rightarrow> path \<Rightarrow> errno option" where
  "watchError st p =
     (if \<not> existsSync st p then Some ENOENT
      else if unreadable st p then Some EACCES
      else if watchLimit st \<le> length (live st) then Some ENOSPC
      else None)"

text \<open>\<^verbatim>\<open>watch(path, listener)\<close>: throws, or a new \<^verbatim>\<open>FSWatcher\<close> is open.\<close>

definition watch :: "'j state \<Rightarrow> string \<Rightarrow> path \<Rightarrow> errno + nat \<times> 'j state" where
  "watch st agent p =
     (case watchError st p of
        Some err \<Rightarrow> Inl err
      | None \<Rightarrow>
          Inr (fresh st,
               st\<lparr>live := live st @ [\<lparr>wid = fresh st, wagent = agent, wpath = p\<rparr>],
                  fresh := Suc (fresh st)\<rparr>))"

text \<open>\<^verbatim>\<open>watcher.close()\<close>: the watch is no longer open; closing twice is harmless.\<close>

definition close :: "nat \<Rightarrow> 'j state \<Rightarrow> 'j state" where
  "close h st = st\<lparr>live := filter (\<lambda>w. wid w \<noteq> h) (live st)\<rparr>"

subsection \<open>The methods of \<^verbatim>\<open>StatusLineWatcher\<close>\<close>

text \<open>\<^verbatim>\<open>ensureDir()\<close>. An error of \<^verbatim>\<open>mkdirSync\<close> reaches the caller.\<close>

definition ensureDir :: "(string \<Rightarrow> path) \<Rightarrow> 'j state \<Rightarrow> errno + 'j state" where
  "ensureDir teamDir st =
     (let dir = statusLineDir teamDir (teamName st)
      in if \<not> existsSync st dir then mkdirSync_recursive st dir else Inr st)"

text \<open>
  \<^verbatim>\<open>watchAgent(agentName)\<close>. The write that creates the file is outside every
  \<^verbatim>\<open>try\<close>, so its error reaches the caller; the read and the \<^verbatim>\<open>watch\<close> are inside one
  each.
\<close>

definition watchAgent :: "(string \<Rightarrow> path) \<Rightarrow> 'j state \<Rightarrow> string \<Rightarrow> errno + 'j state" where
  "watchAgent teamDir st agent =
     (if stopped st then Inr st
      else
        let filePath = statusLineLogPath teamDir (teamName st) agent in
        case (if \<not> existsSync st filePath then writeFileSync st filePath [] else Inr st) of
          Inl err \<Rightarrow> Inl err
        | Inr st1 \<Rightarrow>
            let st2 =
              (case readFileSync st1 filePath of
                 Inr stats \<Rightarrow>
                   st1\<lparr>fileOffsets := AList.update filePath (length stats) (fileOffsets st1)\<rparr>
               | Inl err \<Rightarrow> st1\<lparr>fileOffsets := AList.update filePath 0 (fileOffsets st1)\<rparr>)
            in (case watch st2 agent filePath of
                  Inr (watcher, st3) \<Rightarrow>
                    Inr (log Debug (Watching agent filePath)
                           (st3\<lparr>watchers := AList.update agent watcher (watchers st3)\<rparr>))
                | Inl err \<Rightarrow> Inr (log Error (FailedToWatch agent err) st2)))"

text \<open>\<^verbatim>\<open>unwatchAgent(agentName)\<close>.\<close>

definition unwatchAgent :: "(string \<Rightarrow> path) \<Rightarrow> 'j state \<Rightarrow> string \<Rightarrow> 'j state" where
  "unwatchAgent teamDir st agent =
     (let st1 =
        (case map_of (watchers st) agent of
           Some watcher \<Rightarrow> (close watcher st)\<lparr>watchers := AList.delete agent (watchers st)\<rparr>
         | None \<Rightarrow> st);
          filePath = statusLineLogPath teamDir (teamName st) agent
      in st1\<lparr>fileOffsets := AList.delete filePath (fileOffsets st1)\<rparr>)"

text \<open>\<^verbatim>\<open>stop()\<close>: the loop closes the watches that the map holds.\<close>

definition stop :: "'j state \<Rightarrow> 'j state" where
  "stop st =
     (let st1 = st\<lparr>stopped := True\<rparr>;
          st2 = fold close (map snd (watchers st1)) st1
      in st2\<lparr>watchers := [], fileOffsets := []\<rparr>)"

text \<open>
  The loop over the lines of \<^verbatim>\<open>readNewLines\<close>: a blank line is skipped, a line that
  parses is emitted with the next reading of the clock, a line on which \<^verbatim>\<open>JSON.parse\<close>
  throws is logged. \<^verbatim>\<open>JSON.parse\<close> is the parameter \<open>parse\<close>, with \<open>None\<close> where it
  throws.
\<close>

fun process_lines :: "(jsstring \<Rightarrow> 'j option) \<Rightarrow> string \<Rightarrow> jsstring list \<Rightarrow> 'j state \<Rightarrow> 'j state" where
  "process_lines parse agent [] st = st"
| "process_lines parse agent (line # lines) st =
     (if trim line = [] then process_lines parse agent lines st
      else case parse line of
        Some d \<Rightarrow>
          process_lines parse agent lines
            (emit \<lparr>agentName = agent, data = d, timestamp = clock st (ticks st)\<rparr>
               (st\<lparr>ticks := Suc (ticks st)\<rparr>))
      | None \<Rightarrow> process_lines parse agent lines (log Debug (FailedToParse line) st))"

text \<open>What \<^verbatim>\<open>readNewLines\<close> does with \<^verbatim>\<open>newContent\<close> once the offset is stored.\<close>

definition process_new :: "(jsstring \<Rightarrow> 'j option) \<Rightarrow> string \<Rightarrow> jsstring \<Rightarrow> 'j state \<Rightarrow> 'j state" where
  "process_new parse agent newContent st =
     (if trim newContent = [] then st
      else process_lines parse agent (split_nl (trim newContent)) st)"

text \<open>\<^verbatim>\<open>this.fileOffsets.get(filePath) ?? 0\<close>.\<close>

definition getOffset :: "'j state \<Rightarrow> path \<Rightarrow> nat" where
  "getOffset st filePath = (case map_of (fileOffsets st) filePath of Some n \<Rightarrow> n | None \<Rightarrow> 0)"

text \<open>
  \<^verbatim>\<open>readNewLines(agentName, filePath)\<close>. Only the read can throw out of the outer
  \<^verbatim>\<open>try\<close>, and it is its first statement: the handler starts from the state as it was.
\<close>

definition readNewLines :: "(jsstring \<Rightarrow> 'j option) \<Rightarrow> 'j state \<Rightarrow> string \<Rightarrow> path \<Rightarrow> 'j state" where
  "readNewLines parse st agent filePath =
     (case readFileSync_utf8 st filePath of
        Inl err \<Rightarrow> log Debug (ErrorReading err) st
      | Inr content \<Rightarrow>
          let offset = getOffset st filePath;
              newContent = slice_from content offset;
              st1 = st\<lparr>fileOffsets := AList.update filePath (length content) (fileOffsets st)\<rparr>
          in process_new parse agent newContent st1)"

subsection \<open>The environment\<close>

text \<open>
  A change of the file at \<open>p\<close>: every open watch on \<open>p\<close> calls its listener with
  \<^verbatim>\<open>"change"\<close>, and the listener calls \<^verbatim>\<open>readNewLines\<close>.
\<close>

definition fileChanged :: "(jsstring \<Rightarrow> 'j option) \<Rightarrow> path \<Rightarrow> 'j state \<Rightarrow> 'j state" where
  "fileChanged parse p st =
     fold (\<lambda>w s. readNewLines parse s (wagent w) (wpath w)) (filter (\<lambda>w. wpath w = p) (live st)) st"

text \<open>
  The producer of the log (the command of \<^verbatim>\<open>buildStatusLineCommand\<close> opens the file with
  mode \<^verbatim>\<open>"a"\<close>): it appends bytes to the file and creates the file when it is missing.
\<close>

definition appendFile :: "path \<Rightarrow> byte list \<Rightarrow> 'j state \<Rightarrow> 'j state" where
  "appendFile p bs st =
     (case files st p of
        None \<Rightarrow> st\<lparr>files := (files st)(p \<mapsto> RegularFile bs True)\<rparr>
      | Some Directory \<Rightarrow> st
      | Some (RegularFile old r) \<Rightarrow> st\<lparr>files := (files st)(p \<mapsto> RegularFile (old @ bs) r)\<rparr>)"

text \<open>Somebody changes the permission to read a regular file.\<close>

definition chmodFile :: "path \<Rightarrow> bool \<Rightarrow> 'j state \<Rightarrow> 'j state" where
  "chmodFile p r st =
     (case files st p of
        Some (RegularFile bs old) \<Rightarrow> st\<lparr>files := (files st)(p \<mapsto> RegularFile bs r)\<rparr>
      | _ \<Rightarrow> st)"

text \<open>
  A run of the watcher: calls of its methods by the owner, appends by the producer,
  changes of permissions, and changes reported by the file system, in order. The run
  ends at the first call that throws.
\<close>

datatype call =
    EnsureDir
  | WatchAgent string
  | UnwatchAgent string
  | Stop
  | Append path "byte list"
  | Chmod path bool
  | Changed path

fun step :: "(string \<Rightarrow> path) \<Rightarrow> (jsstring \<Rightarrow> 'j option) \<Rightarrow> call \<Rightarrow> 'j state \<Rightarrow> errno + 'j state" where
  "step teamDir parse EnsureDir st = ensureDir teamDir st"
| "step teamDir parse (WatchAgent agent) st = watchAgent teamDir st agent"
| "step teamDir parse (UnwatchAgent agent) st = Inr (unwatchAgent teamDir st agent)"
| "step teamDir parse Stop st = Inr (stop st)"
| "step teamDir parse (Append p bs) st = Inr (appendFile p bs st)"
| "step teamDir parse (Chmod p r) st = Inr (chmodFile p r st)"
| "step teamDir parse (Changed p) st = Inr (fileChanged parse p st)"

fun run :: "(string \<Rightarrow> path) \<Rightarrow> (jsstring \<Rightarrow> 'j option) \<Rightarrow> call list \<Rightarrow> 'j state \<Rightarrow> errno + 'j state" where
  "run teamDir parse [] st = Inr st"
| "run teamDir parse (c # cs) st =
     (case step teamDir parse c st of Inl err \<Rightarrow> Inl err | Inr st' \<Rightarrow> run teamDir parse cs st')"

subsection \<open>Auxiliary notions for the statements\<close>

text \<open>
  The update events that the loop of \<^verbatim>\<open>readNewLines\<close> emits for a list of lines, when
  the clock gives the readings \<open>clk\<close> and \<open>k\<close> of them have been taken.
\<close>

fun update_events ::
  "(jsstring \<Rightarrow> 'j option) \<Rightarrow> string \<Rightarrow> (nat \<Rightarrow> string) \<Rightarrow> nat \<Rightarrow> jsstring list \<Rightarrow> 'j StatusLineEvent list" where
  "update_events parse agent clk k [] = []"
| "update_events parse agent clk k (line # lines) =
     (if trim line = [] then update_events parse agent clk k lines
      else case parse line of
        Some d \<Rightarrow>
          \<lparr>agentName = agent, data = d, timestamp = clk k\<rparr> # update_events parse agent clk (Suc k) lines
      | None \<Rightarrow> update_events parse agent clk k lines)"

text \<open>The length that \<^verbatim>\<open>watchAgent\<close> stores: the size of the file, or 0 when the read fails.\<close>

definition initialOffset :: "'j state \<Rightarrow> path \<Rightarrow> nat" where
  "initialOffset st p = (case readFileSync st p of Inr stats \<Rightarrow> length stats | Inl err \<Rightarrow> 0)"

text \<open>The second half of \<^verbatim>\<open>watchAgent\<close>, from the read on, as a function of the state.\<close>

definition registered :: "'j state \<Rightarrow> string \<Rightarrow> path \<Rightarrow> 'j state" where
  "registered st a p =
     (case watchError st p of
        Some err \<Rightarrow>
          log Error (FailedToWatch a err)
            (st\<lparr>fileOffsets := AList.update p (initialOffset st p) (fileOffsets st)\<rparr>)
      | None \<Rightarrow>
          log Debug (Watching a p)
            (st\<lparr>fileOffsets := AList.update p (initialOffset st p) (fileOffsets st),
                live := live st @ [\<lparr>wid = fresh st, wagent = a, wpath = p\<rparr>],
                fresh := Suc (fresh st),
                watchers := AList.update a (fresh st) (watchers st)\<rparr>))"

subsection \<open>Example data\<close>

text \<open>
  A team directory, the tree that \<^verbatim>\<open>ensureDir\<close> leaves behind for team \<^verbatim>\<open>t\<close>, and the
  log of agent \<^verbatim>\<open>a\<close>.
\<close>

definition exTeamDir :: "string \<Rightarrow> path" where
  "exTeamDir team = [''home'', ''teams'', team]"

definition exLog :: path where
  "exLog = [''home'', ''teams'', ''t'', ''statusline'', ''a.jsonl'']"

definition exTree :: "path \<rightharpoonup> node" where
  "exTree =
     [[''home''] \<mapsto> Directory,
      [''home'', ''teams''] \<mapsto> Directory,
      [''home'', ''teams'', ''t''] \<mapsto> Directory,
      [''home'', ''teams'', ''t'', ''statusline''] \<mapsto> Directory]"

text \<open>A clock that is read once in a second.\<close>

definition exClock :: "nat \<Rightarrow> string" where
  "exClock k =
     (if k = 0 then ''2025-06-01T12:00:00.000Z''
      else if k = 1 then ''2025-06-01T12:00:01.000Z''
      else ''2025-06-01T12:00:02.000Z'')"

text \<open>
  A stand-in for \<^verbatim>\<open>JSON.parse\<close> in the examples. It accepts the texts \<^verbatim>\<open>{}\<close> and \<^verbatim>\<open>[]\<close>
  and returns the text as the payload; the examples use it on lines that it treats as
  \<^verbatim>\<open>JSON.parse\<close> does.
\<close>

definition exParse :: "jsstring \<Rightarrow> jsstring option" where
  "exParse s = (if s = [0x7B, 0x7D] \<or> s = [0x5B, 0x5D] then Some s else None)"

text \<open>A watcher that holds an offset for the log of \<^verbatim>\<open>a\<close>, whose file is missing.\<close>

definition exMissing :: "jsstring state" where
  "exMissing = (StatusLineWatcher ''t'' exTree 8 exClock)\<lparr>fileOffsets := [(exLog, 3)]\<rparr>"

text \<open>
  A watcher with the offset 3 into a log of three lines, the second of which is not
  JSON: \<^verbatim>\<open>{}\<close>, \<^verbatim>\<open>oops\<close>, \<^verbatim>\<open>[]\<close>.
\<close>

definition exBatch :: "jsstring state" where
  "exBatch =
     (StatusLineWatcher ''t''
        (exTree(exLog \<mapsto> RegularFile
           [0x7B, 0x7D, 0x0A, 0x7B, 0x7D, 0x0A, 0x6F, 0x6F, 0x70, 0x73, 0x0A, 0x5B, 0x5D, 0x0A] True)) 8 exClock)
     \<lparr>fileOffsets := [(exLog, 3)]\<rparr>"

text \<open>A watcher in which agent \<^verbatim>\<open>a\<close> is registered with the open watch 0.\<close>

definition exWatching :: "jsstring state" where
  "exWatching =
     (StatusLineWatcher ''t'' (exTree(exLog \<mapsto> RegularFile [0x7B, 0x7D, 0x0A] True)) 8 exClock)
     \<lparr>watchers := [(''a'', 0)], fileOffsets := [(exLog, 3)],
      live := [\<lparr>wid = 0, wagent = ''a'', wpath = exLog\<rparr>], fresh := 1\<rparr>"

text \<open>The same log without the third line, again with the offset 3.\<close>

definition exUnparsable :: "jsstring state" where
  "exUnparsable =
     (StatusLineWatcher ''t''
        (exTree(exLog \<mapsto> RegularFile [0x7B, 0x7D, 0x0A, 0x6F, 0x6F, 0x70, 0x73, 0x0A] True)) 8 exClock)
     \<lparr>fileOffsets := [(exLog, 3)]\<rparr>"

text \<open>The first line followed by a line of two spaces, with the offset 3.\<close>

definition exBlank :: "jsstring state" where
  "exBlank =
     (StatusLineWatcher ''t'' (exTree(exLog \<mapsto> RegularFile [0x7B, 0x7D, 0x0A, 0x20, 0x20, 0x0A] True)) 8 exClock)
     \<lparr>fileOffsets := [(exLog, 3)]\<rparr>"

text \<open>Before registration: the log of \<^verbatim>\<open>a\<close> holds the line \<^verbatim>\<open>{}\<close>.\<close>

definition exFresh :: "jsstring state" where
  "exFresh = StatusLineWatcher ''t'' (exTree(exLog \<mapsto> RegularFile [0x7B, 0x7D, 0x0A] True)) 8 exClock"





text \<open>
  A watcher that has registered \<^verbatim>\<open>a\<close> and has read its log of three lines, \<^verbatim>\<open>{}\<close>,
  \<^verbatim>\<open>oops\<close> and \<^verbatim>\<open>[]\<close> (11 bytes), up to the end. The watch of the registration is
  open. Since then the file has lost its read permission.
\<close>

definition exRevoked :: "jsstring state" where
  "exRevoked =
     (StatusLineWatcher ''t''
        (exTree(exLog \<mapsto> RegularFile
           [0x7B, 0x7D, 0x0A, 0x6F, 0x6F, 0x70, 0x73, 0x0A, 0x5B, 0x5D, 0x0A] False)) 8 exClock)
     \<lparr>watchers := [(''a'', 0)], fileOffsets := [(exLog, 11)],
      live := [\<lparr>wid = 0, wagent = ''a'', wpath = exLog\<rparr>], fresh := 1\<rparr>"

text \<open>A watcher for team \<^verbatim>\<open>t\<close> on a tree that has the home directory only.\<close>

definition exBare :: "jsstring state" where
  "exBare = StatusLineWatcher ''t'' [[''home''] \<mapsto> Directory] 8 exClock"

text \<open>
  Before registration: the log of \<^verbatim>\<open>a\<close> holds one line, the JSON string of four letters
  e with an acute accent (two bytes each), 11 bytes in all.
\<close>

definition exAccents :: "jsstring state" where
  "exAccents =
     StatusLineWatcher ''t''
       (exTree(exLog \<mapsto> RegularFile
          [0x22, 0xC3, 0xA9, 0xC3, 0xA9, 0xC3, 0xA9, 0xC3, 0xA9, 0x22, 0x0A] True)) 8 exClock"

section \<open>Properties\<close>

subsection \<open>What each step leaves alone\<close>

lemma log_fields [simp]:
  "teamName (log lv m st) = teamName st"
  "watchers (log lv m st) = watchers st"
  "fileOffsets (log lv m st) = fileOffsets st"
  "stopped (log lv m st) = stopped st"
  "files (log lv m st) = files st"
  "live (log lv m st) = live st"
  "fresh (log lv m st) = fresh st"
  "watchLimit (log lv m st) = watchLimit st"
  "clock (log lv m st) = clock st"
  "ticks (log lv m st) = ticks st"
  "emitted (log lv m st) = emitted st"
  "logged (log lv m st) = logged st @ [(lv, m)]"
  by (simp_all add: log_def)

lemma emit_fields [simp]:
  "teamName (emit ev st) = teamName st"
  "watchers (emit ev st) = watchers st"
  "fileOffsets (emit ev st) = fileOffsets st"
  "stopped (emit ev st) = stopped st"
  "files (emit ev st) = files st"
  "live (emit ev st) = live st"
  "fresh (emit ev st) = fresh st"
  "watchLimit (emit ev st) = watchLimit st"
  "clock (emit ev st) = clock st"
  "ticks (emit ev st) = ticks st"
  "emitted (emit ev st) = emitted st @ [ev]"
  "logged (emit ev st) = logged st"
  by (simp_all add: emit_def)

lemma close_fields [simp]:
  "teamName (close h st) = teamName st"
  "watchers (close h st) = watchers st"
  "fileOffsets (close h st) = fileOffsets st"
  "stopped (close h st) = stopped st"
  "files (close h st) = files st"
  "live (close h st) = filter (\<lambda>w. wid w \<noteq> h) (live st)"
  "fresh (close h st) = fresh st"
  "watchLimit (close h st) = watchLimit st"
  "clock (close h st) = clock st"
  "ticks (close h st) = ticks st"
  "emitted (close h st) = emitted st"
  "logged (close h st) = logged st"
  by (simp_all add: close_def)

lemma process_lines_fields [simp]:
  "teamName (process_lines parse a ls st) = teamName st"
  "watchers (process_lines parse a ls st) = watchers st"
  "fileOffsets (process_lines parse a ls st) = fileOffsets st"
  "stopped (process_lines parse a ls st) = stopped st"
  "files (process_lines parse a ls st) = files st"
  "live (process_lines parse a ls st) = live st"
  "fresh (process_lines parse a ls st) = fresh st"
  "watchLimit (process_lines parse a ls st) = watchLimit st"
  "clock (process_lines parse a ls st) = clock st"
  by (induction ls arbitrary: st; simp split: option.split)+

lemma process_new_fields [simp]:
  "teamName (process_new parse a s st) = teamName st"
  "watchers (process_new parse a s st) = watchers st"
  "fileOffsets (process_new parse a s st) = fileOffsets st"
  "stopped (process_new parse a s st) = stopped st"
  "files (process_new parse a s st) = files st"
  "live (process_new parse a s st) = live st"
  "fresh (process_new parse a s st) = fresh st"
  "watchLimit (process_new parse a s st) = watchLimit st"
  "clock (process_new parse a s st) = clock st"
  by (simp_all add: process_new_def)

lemma emitted_process_lines:
  "emitted (process_lines parse a ls st) = emitted st @ update_events parse a (clock st) (ticks st) ls"
  by (induction ls arbitrary: st) (simp_all split: option.split)

lemma update_events_unparsable:
  "\<forall>l \<in> set ls. parse l = None \<Longrightarrow> update_events parse a clk k ls = []"
  by (induction ls arbitrary: k) simp_all

lemma emitted_process_new:
  "emitted (process_new parse a s st) =
     emitted st @
       (if trim s = [] then [] else update_events parse a (clock st) (ticks st) (split_nl (trim s)))"
  by (simp add: process_new_def emitted_process_lines)

lemma statusLineLogPath_not_root [simp]: "statusLineLogPath td team a \<noteq> []"
  by (simp add: statusLineLogPath_def join_def)

lemma statusLineDir_not_root [simp]: "statusLineDir td team \<noteq> []"
  by (simp add: statusLineDir_def join_def)

lemma exLog_eq: "statusLineLogPath exTeamDir ''t'' ''a'' = exLog"
  by (simp add: statusLineLogPath_def statusLineDir_def join_def exTeamDir_def exLog_def)

subsection \<open>A read that fails\<close>

text \<open>
  C6. When reading the file fails in \<^verbatim>\<open>readNewLines\<close>, the only effect is one debug
  message: no update event is emitted, the offsets are as before, and the watch
  handles, the open watches, the flag and the files are untouched. The handler of the
  outer \<^verbatim>\<open>try\<close> ends the call normally, which is why \<open>readNewLines\<close> has no error
  result.
\<close>

theorem readNewLines_read_fails:
  assumes "readFileSync_utf8 st p = Inl err"
  shows "readNewLines parse st a p = st\<lparr>logged := logged st @ [(Debug, ErrorReading err)]\<rparr>
       \<and> emitted (readNewLines parse st a p) = emitted st
       \<and> fileOffsets (readNewLines parse st a p) = fileOffsets st
       \<and> watchers (readNewLines parse st a p) = watchers st
       \<and> live (readNewLines parse st a p) = live st"
  using assms by (simp add: readNewLines_def log_def)

theorem readNewLines_read_fails_witness:
  "readFileSync_utf8 exMissing exLog = Inl ENOENT
   \<and> emitted (readNewLines exParse exMissing ''a'' exLog) = []
   \<and> fileOffsets (readNewLines exParse exMissing ''a'' exLog) = [(exLog, 3)]
   \<and> logged (readNewLines exParse exMissing ''a'' exLog) = [(Debug, ErrorReading ENOENT)]"
proof -
  have h: "readFileSync_utf8 exMissing exLog = Inl ENOENT"
    by (simp add: readFileSync_utf8_def readFileSync_def exMissing_def StatusLineWatcher_def
        exTree_def exLog_def)
  show ?thesis
    using h readNewLines_read_fails [OF h, of exParse "''a''"]
    by (simp add: exMissing_def StatusLineWatcher_def)
qed

subsection \<open>A read that succeeds\<close>

lemma trim_blank: "\<forall>c \<in> set s. is_ws c \<Longrightarrow> trim s = []"
proof -
  assume "\<forall>c \<in> set s. is_ws c"
  then have "dropWhile is_ws s = []" by (induction s) simp_all
  then show ?thesis by (simp add: trim_def trimStart_def trimEnd_def del: dropWhile_eq_Nil_conv)
qed

text \<open>
  C5. When the read succeeds, \<^verbatim>\<open>readNewLines\<close> stores the length of the content as the
  offset of the file, whatever the new part is. In particular the offset is stored and
  no update event is emitted when the new part is empty, when it is white space only,
  and when none of its lines parses.
\<close>

theorem readNewLines_offset_unconditional:
  assumes "readFileSync_utf8 st p = Inr content"
  shows "map_of (fileOffsets (readNewLines parse st a p)) p = Some (length content)
       \<and> (slice_from content (getOffset st p) = [] \<longrightarrow>
            emitted (readNewLines parse st a p) = emitted st)
       \<and> ((\<forall>c \<in> set (slice_from content (getOffset st p)). is_ws c) \<longrightarrow>
            emitted (readNewLines parse st a p) = emitted st)
       \<and> ((\<forall>l \<in> set (split_nl (trim (slice_from content (getOffset st p)))). parse l = None) \<longrightarrow>
            emitted (readNewLines parse st a p) = emitted st)"
  using assms
  by (simp add: readNewLines_def Let_def update_conv' emitted_process_new trim_blank
      update_events_unparsable)

theorem readNewLines_offset_unconditional_witness:
  "readFileSync_utf8 exUnparsable exLog = Inr [0x7B, 0x7D, 0x0A, 0x6F, 0x6F, 0x70, 0x73, 0x0A]
   \<and> split_nl (trim (slice_from [0x7B, 0x7D, 0x0A, 0x6F, 0x6F, 0x70, 0x73, 0x0A]
          (getOffset exUnparsable exLog))) = [[0x6F, 0x6F, 0x70, 0x73]]
   \<and> exParse [0x6F, 0x6F, 0x70, 0x73] = None
   \<and> map_of (fileOffsets (readNewLines exParse exUnparsable ''a'' exLog)) exLog = Some 8
   \<and> emitted (readNewLines exParse exUnparsable ''a'' exLog) = []
   \<and> readFileSync_utf8 exWatching exLog = Inr [0x7B, 0x7D, 0x0A]
   \<and> slice_from [0x7B, 0x7D, 0x0A] (getOffset exWatching exLog) = []
   \<and> map_of (fileOffsets (readNewLines exParse exWatching ''a'' exLog)) exLog = Some 3
   \<and> emitted (readNewLines exParse exWatching ''a'' exLog) = []
   \<and> readFileSync_utf8 exBlank exLog = Inr [0x7B, 0x7D, 0x0A, 0x20, 0x20, 0x0A]
   \<and> slice_from [0x7B, 0x7D, 0x0A, 0x20, 0x20, 0x0A] (getOffset exBlank exLog) = [0x20, 0x20, 0x0A]
   \<and> is_ws 0x20 \<and> is_ws 0x0A
   \<and> map_of (fileOffsets (readNewLines exParse exBlank ''a'' exLog)) exLog = Some 6
   \<and> emitted (readNewLines exParse exBlank ''a'' exLog) = []"
proof -
  have r1: "readFileSync_utf8 exUnparsable exLog = Inr [0x7B, 0x7D, 0x0A, 0x6F, 0x6F, 0x70, 0x73, 0x0A]"
    by code_simp
  have l1: "split_nl (trim (slice_from [0x7B, 0x7D, 0x0A, 0x6F, 0x6F, 0x70, 0x73, 0x0A]
          (getOffset exUnparsable exLog))) = [[0x6F, 0x6F, 0x70, 0x73]]"
    by code_simp
  have p1: "exParse [0x6F, 0x6F, 0x70, 0x73] = None"
    by code_simp
  have u1: "\<forall>l \<in> set (split_nl (trim (slice_from [0x7B, 0x7D, 0x0A, 0x6F, 0x6F, 0x70, 0x73, 0x0A]
          (getOffset exUnparsable exLog)))). exParse l = None"
    by (simp add: l1 p1)
  have e1: "emitted exUnparsable = []"
    by (simp add: exUnparsable_def StatusLineWatcher_def)
  have r2: "readFileSync_utf8 exWatching exLog = Inr [0x7B, 0x7D, 0x0A]"
    by code_simp
  have u2: "slice_from [0x7B, 0x7D, 0x0A] (getOffset exWatching exLog) = []"
    by code_simp
  have e2: "emitted exWatching = []"
    by (simp add: exWatching_def StatusLineWatcher_def)
  have r3: "readFileSync_utf8 exBlank exLog = Inr [0x7B, 0x7D, 0x0A, 0x20, 0x20, 0x0A]"
    by code_simp
  have u3: "slice_from [0x7B, 0x7D, 0x0A, 0x20, 0x20, 0x0A] (getOffset exBlank exLog) = [0x20, 0x20, 0x0A]"
    by code_simp
  have w3: "is_ws 0x20 \<and> is_ws 0x0A"
    by (simp add: is_ws_def)
  have e3: "emitted exBlank = []"
    by (simp add: exBlank_def StatusLineWatcher_def)
  show ?thesis
    using r1 l1 p1 u1 e1 r2 u2 e2 r3 u3 w3 e3
      readNewLines_offset_unconditional [OF r1, of exParse "''a''"]
      readNewLines_offset_unconditional [OF r2, of exParse "''a''"]
      readNewLines_offset_unconditional [OF r3, of exParse "''a''"]
    by simp
qed

subsection \<open>Unregistering\<close>

lemma delete_absent: "map_of al k = None \<Longrightarrow> AList.delete k al = al"
  by (induction al) (auto split: if_splits)

text \<open>
  C8. \<^verbatim>\<open>unwatchAgent\<close> is idempotent: a second call for the same name changes nothing.
  After one call the name has no watch handle and the path of its log has no offset;
  a handle that the name had is closed. For a name that has neither a handle nor an
  offset the call changes nothing at all. The method has no statement that can throw,
  so the model has no error result.
\<close>

theorem unwatchAgent_idempotent:
  "unwatchAgent td (unwatchAgent td st a) a = unwatchAgent td st a
   \<and> map_of (watchers (unwatchAgent td st a)) a = None
   \<and> map_of (fileOffsets (unwatchAgent td st a)) (statusLineLogPath td (teamName st) a) = None
   \<and> (\<forall>h. map_of (watchers st) a = Some h \<longrightarrow> h \<notin> wid ` set (live (unwatchAgent td st a)))
   \<and> (map_of (watchers st) a = None
        \<and> map_of (fileOffsets st) (statusLineLogPath td (teamName st) a) = None
        \<longrightarrow> unwatchAgent td st a = st)"
  by (cases "map_of (watchers st) a")
    (auto simp add: unwatchAgent_def Let_def delete_idem delete_conv delete_absent)

theorem unwatchAgent_idempotent_witness:
  "map_of (watchers exWatching) ''a'' = Some 0
   \<and> 0 \<notin> wid ` set (live (unwatchAgent exTeamDir exWatching ''a''))
   \<and> map_of (watchers (unwatchAgent exTeamDir exWatching ''a'')) ''a'' = None
   \<and> map_of (fileOffsets (unwatchAgent exTeamDir exWatching ''a'')) exLog = None
   \<and> unwatchAgent exTeamDir (unwatchAgent exTeamDir exWatching ''a'') ''a''
       = unwatchAgent exTeamDir exWatching ''a''
   \<and> unwatchAgent exTeamDir (unwatchAgent exTeamDir exWatching ''a'') ''b''
       = unwatchAgent exTeamDir exWatching ''a''"
proof -
  have t: "teamName exWatching = ''t''"
    by (simp add: exWatching_def StatusLineWatcher_def)
  have w: "map_of (watchers exWatching) ''a'' = Some 0"
    by (simp add: exWatching_def StatusLineWatcher_def)
  have b: "map_of (watchers (unwatchAgent exTeamDir exWatching ''a'')) ''b'' = None
     \<and> map_of (fileOffsets (unwatchAgent exTeamDir exWatching ''a''))
          (statusLineLogPath exTeamDir (teamName (unwatchAgent exTeamDir exWatching ''a'')) ''b'') = None"
    by code_simp
  show ?thesis
    using w b unwatchAgent_idempotent [of exTeamDir exWatching "''a''"]
      unwatchAgent_idempotent [of exTeamDir "unwatchAgent exTeamDir exWatching ''a''" "''b''"]
    by (simp add: t exLog_eq)
qed

subsection \<open>A batch with a line that does not parse\<close>

lemma trimStart_nonblank: "trimStart l \<noteq> [] \<longleftrightarrow> (\<exists>c \<in> set l. \<not> is_ws c)"
  by (simp add: trimStart_def)

lemma trimEnd_nonblank: "trimEnd l \<noteq> [] \<longleftrightarrow> (\<exists>c \<in> set l. \<not> is_ws c)"
  by (simp add: trimEnd_def)

lemma set_trimStart_nonblank:
  "(\<exists>c \<in> set (trimStart l). \<not> is_ws c) \<longleftrightarrow> (\<exists>c \<in> set l. \<not> is_ws c)"
proof
  assume "\<exists>c \<in> set (trimStart l). \<not> is_ws c"
  then show "\<exists>c \<in> set l. \<not> is_ws c"
    unfolding trimStart_def using set_dropWhileD by fast
next
  assume "\<exists>c \<in> set l. \<not> is_ws c"
  then have "dropWhile is_ws l \<noteq> []" by simp
  then have "hd (dropWhile is_ws l) \<in> set (dropWhile is_ws l) \<and> \<not> is_ws (hd (dropWhile is_ws l))"
    using hd_dropWhile [of is_ws l] by simp
  then show "\<exists>c \<in> set (trimStart l). \<not> is_ws c"
    unfolding trimStart_def by blast
qed

lemma set_trimEnd_nonblank:
  "(\<exists>c \<in> set (trimEnd l). \<not> is_ws c) \<longleftrightarrow> (\<exists>c \<in> set l. \<not> is_ws c)"
  using set_trimStart_nonblank [of "rev l"] by (simp add: trimStart_def trimEnd_def)

lemma trim_nonblank: "trim l \<noteq> [] \<longleftrightarrow> (\<exists>c \<in> set l. \<not> is_ws c)"
  unfolding trim_def by (simp only: trimEnd_nonblank set_trimStart_nonblank)

lemma trimStart_append:
  "\<exists>c \<in> set l. \<not> is_ws c \<Longrightarrow> trimStart (l @ r) = trimStart l @ r"
  unfolding trimStart_def by (auto simp: dropWhile_append1)

lemma trimEnd_append:
  "\<exists>c \<in> set l. \<not> is_ws c \<Longrightarrow> \<forall>c \<in> set w. is_ws c \<Longrightarrow> trimEnd (r @ l @ w) = r @ trimEnd l"
proof -
  assume l: "\<exists>c \<in> set l. \<not> is_ws c" and w: "\<forall>c \<in> set w. is_ws c"
  have "dropWhile is_ws (rev w @ rev l @ rev r) = dropWhile is_ws (rev l @ rev r)"
    by (rule dropWhile_append2) (use w in simp)
  also have "\<dots> = dropWhile is_ws (rev l) @ rev r"
    using l by (auto simp: dropWhile_append1)
  finally show ?thesis by (simp add: trimEnd_def)
qed

lemma split_nl_nonempty: "split_nl s \<noteq> []"
  by (induction s) (simp_all split: list.split)

lemma split_nl_single: "0x0A \<notin> set l \<Longrightarrow> split_nl l = [l]"
  by (induction l) simp_all

lemma split_nl_line: "0x0A \<notin> set l \<Longrightarrow> split_nl (l @ 0x0A # r) = l # split_nl r"
  by (induction l) (simp_all split: list.split)

lemma set_trimStart: "set (trimStart l) \<subseteq> set l"
  unfolding trimStart_def using set_dropWhileD by fast

lemma set_trimEnd: "set (trimEnd l) \<subseteq> set l"
  unfolding trimEnd_def using set_dropWhileD by fastforce

lemma trim_three_lines:
  assumes "trim l1 \<noteq> []" "trim l3 \<noteq> []" "\<forall>c \<in> set w. is_ws c"
  shows "trim (l1 @ [0x0A] @ l2 @ [0x0A] @ l3 @ w) = trimStart l1 @ [0x0A] @ l2 @ [0x0A] @ trimEnd l3"
proof -
  have "trimStart (l1 @ [0x0A] @ l2 @ [0x0A] @ l3 @ w) = trimStart l1 @ [0x0A] @ l2 @ [0x0A] @ l3 @ w"
    using assms(1) by (simp only: trim_nonblank trimStart_append)
  moreover have "trimEnd ((trimStart l1 @ [0x0A] @ l2 @ [0x0A]) @ l3 @ w)
      = (trimStart l1 @ [0x0A] @ l2 @ [0x0A]) @ trimEnd l3"
    using assms(2,3) by (simp only: trim_nonblank trimEnd_append)
  ultimately show ?thesis by (simp add: trim_def)
qed

text \<open>
  C3. The file holds \<open>pre @ chunk\<close> and the stored offset is the length of \<open>pre\<close>, so
  \<open>chunk\<close> is what \<^verbatim>\<open>readNewLines\<close> sees as new. The chunk has three lines, the second
  of which \<^verbatim>\<open>JSON.parse\<close> rejects, and may end in white space \<open>w\<close> (the line feed of
  the last record). The first and the third line are not blank and parse. Because the
  chunk is trimmed as a whole before it is split, the first line reaches \<^verbatim>\<open>JSON.parse\<close>
  without its leading white space and the third without its trailing white space; a
  line that starts with \<^verbatim>\<open>{\<close> and ends with \<^verbatim>\<open>}\<close> is passed as it is. Then exactly two
  update events are emitted, for the first and the third line in this order, none for
  the second line, whose only trace is a debug message (none when it is blank), and
  the offset is the end of the chunk.
\<close>

theorem readNewLines_partial_batch:
  assumes "readFileSync_utf8 st p = Inr (pre @ chunk)"
    and "getOffset st p = length pre"
    and "chunk = l1 @ [0x0A] @ l2 @ [0x0A] @ l3 @ w"
    and "0x0A \<notin> set l1" and "0x0A \<notin> set l2" and "0x0A \<notin> set l3"
    and "\<forall>c \<in> set w. is_ws c"
    and "trim l1 \<noteq> []" and "trim l3 \<noteq> []"
    and "parse (trimStart l1) = Some d1" and "parse l2 = None" and "parse (trimEnd l3) = Some d3"
  shows "emitted (readNewLines parse st a p)
           = emitted st @
               [\<lparr>agentName = a, data = d1, timestamp = clock st (ticks st)\<rparr>,
                \<lparr>agentName = a, data = d3, timestamp = clock st (Suc (ticks st))\<rparr>]
       \<and> logged (readNewLines parse st a p)
           = logged st @ (if trim l2 = [] then [] else [(Debug, FailedToParse l2)])
       \<and> map_of (fileOffsets (readNewLines parse st a p)) p = Some (length pre + length chunk)"
proof -
  let ?t = "trimStart l1 @ [0x0A] @ l2 @ [0x0A] @ trimEnd l3"
  have t: "trim chunk = ?t"
    unfolding assms(3) using assms(8,9,7) by (rule trim_three_lines)
  have n1: "0x0A \<notin> set (trimStart l1)" using assms(4) set_trimStart by blast
  have n3: "0x0A \<notin> set (trimEnd l3)" using assms(6) set_trimEnd by blast
  have s: "split_nl ?t = [trimStart l1, l2, trimEnd l3]"
    using n1 n3 assms(5) by (simp add: split_nl_line split_nl_single)
  have b1: "trim (trimStart l1) \<noteq> []"
    using assms(8) by (simp only: trim_nonblank set_trimStart_nonblank)
  have b3: "trim (trimEnd l3) \<noteq> []"
    using assms(9) by (simp only: trim_nonblank set_trimEnd_nonblank)
  have ne: "?t \<noteq> []" using b1 by auto
  have pn: "process_new parse a chunk st' = process_lines parse a [trimStart l1, l2, trimEnd l3] st'"
    for st' :: "'a state"
    unfolding process_new_def t s using ne by simp
  have r: "readNewLines parse st a p
      = process_lines parse a [trimStart l1, l2, trimEnd l3]
          (st\<lparr>fileOffsets := AList.update p (length (pre @ chunk)) (fileOffsets st)\<rparr>)"
    using assms(1,2) by (simp add: readNewLines_def Let_def slice_from_def pn)
  show ?thesis
    unfolding r using b1 b3 assms(10,11,12) by (simp add: update_conv')
qed

theorem readNewLines_partial_batch_witness:
  "readFileSync_utf8 exBatch exLog = Inr ([0x7B, 0x7D, 0x0A] @ [0x7B, 0x7D, 0x0A, 0x6F, 0x6F, 0x70, 0x73, 0x0A, 0x5B, 0x5D, 0x0A])
   \<and> getOffset exBatch exLog = length [0x7B, 0x7D, 0x0A :: 16 word]
   \<and> exParse (trimStart [0x7B, 0x7D]) = Some [0x7B, 0x7D]
   \<and> exParse [0x6F, 0x6F, 0x70, 0x73] = None
   \<and> exParse (trimEnd [0x5B, 0x5D]) = Some [0x5B, 0x5D]
   \<and> emitted (readNewLines exParse exBatch ''a'' exLog)
       = [\<lparr>agentName = ''a'', data = [0x7B, 0x7D], timestamp = ''2025-06-01T12:00:00.000Z''\<rparr>,
          \<lparr>agentName = ''a'', data = [0x5B, 0x5D], timestamp = ''2025-06-01T12:00:01.000Z''\<rparr>]
   \<and> logged (readNewLines exParse exBatch ''a'' exLog) = [(Debug, FailedToParse [0x6F, 0x6F, 0x70, 0x73])]
   \<and> map_of (fileOffsets (readNewLines exParse exBatch ''a'' exLog)) exLog = Some 14"
proof -
  have h1: "readFileSync_utf8 exBatch exLog = Inr ([0x7B, 0x7D, 0x0A] @ [0x7B, 0x7D, 0x0A, 0x6F, 0x6F, 0x70, 0x73, 0x0A, 0x5B, 0x5D, 0x0A])"
    by code_simp
  have h2: "getOffset exBatch exLog = length [0x7B, 0x7D, 0x0A :: 16 word]"
    by code_simp
  have h3: "[0x7B, 0x7D, 0x0A, 0x6F, 0x6F, 0x70, 0x73, 0x0A, 0x5B, 0x5D, 0x0A]
      = [0x7B, 0x7D] @ [0x0A] @ [0x6F, 0x6F, 0x70, 0x73] @ [0x0A] @ [0x5B, 0x5D] @ [0x0A :: 16 word]"
    by simp
  have h4: "(0x0A :: 16 word) \<notin> set [0x7B, 0x7D]" by simp
  have h5: "(0x0A :: 16 word) \<notin> set [0x6F, 0x6F, 0x70, 0x73]" by simp
  have h6: "(0x0A :: 16 word) \<notin> set [0x5B, 0x5D]" by simp
  have h7: "\<forall>c \<in> set [0x0A :: 16 word]. is_ws c" by code_simp
  have h8: "trim [0x7B, 0x7D] \<noteq> []" by code_simp
  have h9: "trim [0x5B, 0x5D] \<noteq> []" by code_simp
  have h10: "exParse (trimStart [0x7B, 0x7D]) = Some [0x7B, 0x7D]" by code_simp
  have h11: "exParse [0x6F, 0x6F, 0x70, 0x73] = None" by code_simp
  have h12: "exParse (trimEnd [0x5B, 0x5D]) = Some [0x5B, 0x5D]" by code_simp
  have e: "emitted exBatch = [] \<and> logged exBatch = [] \<and> ticks exBatch = 0 \<and> clock exBatch = exClock"
    by (simp add: exBatch_def StatusLineWatcher_def)
  have c: "exClock 0 = ''2025-06-01T12:00:00.000Z'' \<and> exClock (Suc 0) = ''2025-06-01T12:00:01.000Z''"
    by (simp add: exClock_def)
  have b: "trim [0x6F, 0x6F, 0x70, 0x73] \<noteq> []" by code_simp
  show ?thesis
    using readNewLines_partial_batch [OF h1 h2 h3 h4 h5 h6 h7 h8 h9 h10 h11 h12, of "''a''"]
      h1 h2 h10 h11 h12 e b c
    by simp
qed

subsection \<open>The decoder and the bytes appended to a file\<close>

text \<open>
  A string has at most as many code units as the file has bytes, and what lies beyond
  the first \<open>length old\<close> code units of the decoded file \<open>old @ new\<close> is the end of what
  the decoder produces while it reads \<open>new\<close>; the decoder may enter \<open>new\<close> inside a
  character that \<open>old\<close> left open, in which case at least one unit is dropped.
\<close>

lemma utf8_lead_cases:
  "utf8_lead b = (out, s) \<Longrightarrow> (out = [] \<and> s \<noteq> Start) \<or> (length out = 1 \<and> s = Start)"
  by (auto simp: utf8_lead_def split: if_splits)

lemma length_utf16_units: "length (utf16_units cp) \<le> 2"
  by (simp add: utf16_units_def)

lemma utf8_run_Nil: "s = Start \<or> 0 < k \<Longrightarrow> drop k (utf8_run s []) = []"
  by (cases s) auto

lemma drop_utf8_run_append:
  "s0 = Start \<or> 0 < d \<Longrightarrow>
   \<exists>s k. (s = Start \<or> 0 < k) \<and> drop (length old + d) (utf8_run s0 (old @ new)) = drop k (utf8_run s new)"
proof (induction old arbitrary: s0 d)
  case Nil
  then show ?case by auto
next
  case (Cons b bs)
  obtain out s' where lead: "utf8_lead b = (out, s')" by (cases "utf8_lead b")
  show ?case
  proof (cases s0)
    case Start
    from utf8_lead_cases [OF lead] show ?thesis
    proof
      assume "out = [] \<and> s' \<noteq> Start"
      then have "drop (length (b # bs) + d) (utf8_run s0 ((b # bs) @ new))
          = drop (length bs + Suc d) (utf8_run s' (bs @ new))"
        using Start lead by simp
      then show ?thesis using Cons.IH [of s' "Suc d"] by simp
    next
      assume o: "length out = 1 \<and> s' = Start"
      then have "drop (length (b # bs) + d) (utf8_run s0 ((b # bs) @ new))
          = drop (length bs + d) (utf8_run Start (bs @ new))"
        using Start lead by simp
      then show ?thesis using Cons.IH [of Start d] by simp
    qed
  next
    case (Pending n cp lo hi)
    with Cons.prems obtain d' where d: "d = Suc d'" by (cases d) auto
    consider (bad) "b < lo \<or> hi < b" | (last) "\<not> (b < lo \<or> hi < b)" "n \<le> 1"
      | (more) "\<not> (b < lo \<or> hi < b)" "\<not> n \<le> 1" by blast
    then show ?thesis
    proof cases
      case bad
      from utf8_lead_cases [OF lead] show ?thesis
      proof
        assume "out = [] \<and> s' \<noteq> Start"
        then have "drop (length (b # bs) + d) (utf8_run s0 ((b # bs) @ new))
            = drop (length bs + d) (utf8_run s' (bs @ new))"
          using Pending bad lead by simp
        then show ?thesis using Cons.IH [of s' d] d by simp
      next
        assume "length out = 1 \<and> s' = Start"
        then have "drop (length (b # bs) + d) (utf8_run s0 ((b # bs) @ new))
            = drop (length bs + d') (utf8_run Start (bs @ new))"
          using Pending bad lead d by simp
        then show ?thesis using Cons.IH [of Start d'] by simp
      qed
    next
      case last
      let ?u = "utf16_units (cp * 0x40 + unat b mod 0x40)"
      have "drop (length (b # bs) + d) (utf8_run s0 ((b # bs) @ new))
          = drop (length bs + (Suc (Suc d') - length ?u)) (utf8_run Start (bs @ new))"
        using Pending last d length_utf16_units [of "cp * 0x40 + unat b mod 0x40"] by simp
      then show ?thesis
        using Cons.IH [of Start "Suc (Suc d') - length ?u"] by simp
    next
      case more
      have "drop (length (b # bs) + d) (utf8_run s0 ((b # bs) @ new))
          = drop (length bs + Suc d) (utf8_run (Pending (n - 1) (cp * 0x40 + unat b mod 0x40) 0x80 0xBF) (bs @ new))"
        using Pending more by simp
      then show ?thesis
        using Cons.IH [of "Pending (n - 1) (cp * 0x40 + unat b mod 0x40) 0x80 0xBF" "Suc d"] by simp
    qed
  qed
qed

lemma slice_after_append:
  "\<exists>s k. (s = Start \<or> 0 < k) \<and> slice_from (utf8_decode (old @ new)) (length old) = drop k (utf8_run s new)"
  using drop_utf8_run_append [of Start 0 old new] by (simp add: slice_from_def utf8_decode_def)

lemma length_utf8_run: "length (utf8_run s bs) \<le> length bs + (if s = Start then 0 else 1)"
proof (induction bs arbitrary: s)
  case Nil
  then show ?case by (cases s) auto
next
  case (Cons b bs)
  obtain out s' where lead: "utf8_lead b = (out, s')" by (cases "utf8_lead b")
  show ?case
  proof (cases s)
    case Start
    then show ?thesis using lead utf8_lead_cases [OF lead] Cons.IH [of s'] by (auto split: if_splits)
  next
    case (Pending n cp lo hi)
    then show ?thesis
      using lead utf8_lead_cases [OF lead] Cons.IH [of s'] Cons.IH [of Start]
        Cons.IH [of "Pending (n - 1) (cp * 0x40 + unat b mod 0x40) 0x80 0xBF"]
        length_utf16_units [of "cp * 0x40 + unat b mod 0x40"]
      by (auto split: if_splits)
  qed
qed

lemma length_utf8_decode: "length (utf8_decode bs) \<le> length bs"
  using length_utf8_run [of Start bs] by (simp add: utf8_decode_def)

subsection \<open>Registration\<close>

lemma fileChanged_single:
  assumes "filter (\<lambda>w. wpath w = p) (live st) = [w]"
  shows "fileChanged parse p st = readNewLines parse st (wagent w) (wpath w)"
  using assms by (simp add: fileChanged_def)

lemma readFileSync_files: "files st' = files st \<Longrightarrow> readFileSync st' p = readFileSync st p"
  by (simp add: readFileSync_def)

lemma readFileSync_utf8_files: "files st' = files st \<Longrightarrow> readFileSync_utf8 st' p = readFileSync_utf8 st p"
  by (simp add: readFileSync_utf8_def readFileSync_def)

lemma watchAgent_tail:
  assumes "existsSync st1 p"
  shows "(let st2 =
              (case readFileSync st1 p of
                 Inr stats \<Rightarrow> st1\<lparr>fileOffsets := AList.update p (length stats) (fileOffsets st1)\<rparr>
               | Inl err \<Rightarrow> st1\<lparr>fileOffsets := AList.update p 0 (fileOffsets st1)\<rparr>)
          in (case watch st2 a p of
                Inr (watcher, st3) \<Rightarrow>
                  Inr (log Debug (Watching a p)
                         (st3\<lparr>watchers := AList.update a watcher (watchers st3)\<rparr>))
              | Inl err \<Rightarrow> Inr (log Error (FailedToWatch a err) st2)))
         = (Inr (registered st1 a p) :: errno + 'j state)"
proof -
  define st2 where "st2 = st1\<lparr>fileOffsets := AList.update p (initialOffset st1 p) (fileOffsets st1)\<rparr>"
  have r: "(case readFileSync st1 p of
                 Inr stats \<Rightarrow> st1\<lparr>fileOffsets := AList.update p (length stats) (fileOffsets st1)\<rparr>
               | Inl err \<Rightarrow> st1\<lparr>fileOffsets := AList.update p 0 (fileOffsets st1)\<rparr>) = st2"
    by (simp add: st2_def initialOffset_def split: sum.split)
  have e: "existsSync st2 p" using assms by (simp add: st2_def existsSync_def)
  have we: "watchError st2 p = watchError st1 p"
    by (simp add: watchError_def unreadable_def existsSync_def st2_def)
  show ?thesis
  proof (cases "watchError st1 p")
    case (Some err)
    then have "watch st2 a p = Inl err" by (simp add: watch_def we)
    then show ?thesis unfolding Let_def r using Some by (simp add: registered_def st2_def)
  next
    case None
    then have "watch st2 a p = Inr (fresh st2,
        st2\<lparr>live := live st2 @ [\<lparr>wid = fresh st2, wagent = a, wpath = p\<rparr>], fresh := Suc (fresh st2)\<rparr>)"
      by (simp add: watch_def we)
    then show ?thesis unfolding Let_def r using None by (simp add: registered_def st2_def)
  qed
qed

lemma watchAgent_existing:
  assumes "\<not> stopped st" and "p = statusLineLogPath td (teamName st) a" and "existsSync st p"
  shows "watchAgent td st a = Inr (registered st a p)"
proof -
  have "watchAgent td st a = (let st2 =
              (case readFileSync st p of
                 Inr stats \<Rightarrow> st\<lparr>fileOffsets := AList.update p (length stats) (fileOffsets st)\<rparr>
               | Inl err \<Rightarrow> st\<lparr>fileOffsets := AList.update p 0 (fileOffsets st)\<rparr>)
          in (case watch st2 a p of
                Inr (watcher, st3) \<Rightarrow>
                  Inr (log Debug (Watching a p)
                         (st3\<lparr>watchers := AList.update a watcher (watchers st3)\<rparr>))
              | Inl err \<Rightarrow> Inr (log Error (FailedToWatch a err) st2)))"
    unfolding assms(2) using assms(1) assms(3) [unfolded assms(2)] by (simp add: watchAgent_def Let_def)
  then show ?thesis by (simp only: watchAgent_tail [OF assms(3)])
qed



lemma registered_fields [simp]:
  "teamName (registered st a p) = teamName st"
  "stopped (registered st a p) = stopped st"
  "files (registered st a p) = files st"
  "emitted (registered st a p) = emitted st"
  "watchLimit (registered st a p) = watchLimit st"
  "clock (registered st a p) = clock st"
  "ticks (registered st a p) = ticks st"
  "fileOffsets (registered st a p) = AList.update p (initialOffset st p) (fileOffsets st)"
  by (simp_all add: registered_def split: option.split)

lemma appendFile_fields [simp]:
  "teamName (appendFile p bs st) = teamName st"
  "watchers (appendFile p bs st) = watchers st"
  "fileOffsets (appendFile p bs st) = fileOffsets st"
  "stopped (appendFile p bs st) = stopped st"
  "live (appendFile p bs st) = live st"
  "fresh (appendFile p bs st) = fresh st"
  "watchLimit (appendFile p bs st) = watchLimit st"
  "clock (appendFile p bs st) = clock st"
  "ticks (appendFile p bs st) = ticks st"
  "emitted (appendFile p bs st) = emitted st"
  "logged (appendFile p bs st) = logged st"
  by (simp_all add: appendFile_def split: option.split node.split)

lemma readNewLines_reads:
  assumes "readFileSync_utf8 st p = Inr content"
  shows "readNewLines parse st a p =
     process_new parse a (slice_from content (getOffset st p))
       (st\<lparr>fileOffsets := AList.update p (length content) (fileOffsets st)\<rparr>)"
  using assms by (simp add: readNewLines_def Let_def)

lemma process_new_empty [simp]: "process_new parse a [] st = st"
  by (simp add: process_new_def trim_def trimStart_def trimEnd_def)

lemma readFileSync_utf8_appendFile:
  assumes "files st p = Some (RegularFile old True)" and "p \<noteq> []"
  shows "readFileSync_utf8 (appendFile p new st) p = Inr (utf8_decode (old @ new))"
  using assms by (simp add: readFileSync_utf8_def readFileSync_def appendFile_def)

text \<open>
  C1. The watcher is not stopped and the log of the agent is a readable file with the
  bytes \<open>old\<close>. Then \<^verbatim>\<open>watchAgent\<close> returns, and the offset it has stored for the path is
  the number of bytes of the file. A \<^verbatim>\<open>readNewLines\<close> that follows while the file is
  unchanged emits nothing. When the producer has appended the bytes \<open>new\<close>, what
  \<^verbatim>\<open>readNewLines\<close> processes as the new content is the end of what the decoder produces
  from \<open>new\<close> (from all of \<open>new\<close>, unless \<open>old\<close> is longer in bytes than in code units or
  ends inside a character): nothing that was decoded from \<open>old\<close> is parsed or emitted.
\<close>

theorem watchAgent_no_replay:
  assumes "\<not> stopped st" and "p = statusLineLogPath td (teamName st) a"
    and "files st p = Some (RegularFile old True)"
  shows "\<exists>st1. watchAgent td st a = Inr st1
       \<and> map_of (fileOffsets st1) p = Some (length old)
       \<and> emitted st1 = emitted st
       \<and> (\<forall>parse. emitted (readNewLines parse st1 a p) = emitted st)
       \<and> (\<forall>parse new. \<exists>s k. (s = Start \<or> 0 < k) \<and>
            readNewLines parse (appendFile p new st1) a p =
              process_new parse a (drop k (utf8_run s new))
                ((appendFile p new st1)
                  \<lparr>fileOffsets := AList.update p (length (utf8_decode (old @ new))) (fileOffsets st1)\<rparr>))"
proof -
  let ?st1 = "registered st a p"
  have pne: "p \<noteq> []" using assms(2) by simp
  have ex: "existsSync st p" using assms(3) by (simp add: existsSync_def)
  have w: "watchAgent td st a = Inr ?st1"
    using assms(1,2) ex by (rule watchAgent_existing)
  have io: "initialOffset st p = length old"
    using assms(3) pne by (simp add: initialOffset_def readFileSync_def)
  have off: "map_of (fileOffsets ?st1) p = Some (length old)"
    by (simp add: io update_conv')
  have g: "getOffset ?st1 p = length old"
    by (simp add: getOffset_def off del: registered_fields)
  have f1: "files ?st1 p = Some (RegularFile old True)" using assms(3) by simp
  have r0: "readFileSync_utf8 ?st1 p = Inr (utf8_decode old)"
    using f1 pne by (simp add: readFileSync_utf8_def readFileSync_def del: registered_fields)
  have same: "emitted (readNewLines parse ?st1 a p) = emitted st" for parse :: "jsstring \<Rightarrow> 'a option"
  proof -
    have "slice_from (utf8_decode old) (length old) = []"
      using length_utf8_decode [of old] by (simp add: slice_from_def)
    then show ?thesis
      by (simp add: readNewLines_reads [OF r0] g del: registered_fields) simp
  qed
  have app: "\<exists>s k. (s = Start \<or> 0 < k) \<and>
            readNewLines parse (appendFile p new ?st1) a p =
              process_new parse a (drop k (utf8_run s new))
                ((appendFile p new ?st1)
                  \<lparr>fileOffsets := AList.update p (length (utf8_decode (old @ new))) (fileOffsets ?st1)\<rparr>)"
    for parse :: "jsstring \<Rightarrow> 'a option" and new
  proof -
    have r: "readFileSync_utf8 (appendFile p new ?st1) p = Inr (utf8_decode (old @ new))"
      using f1 pne by (rule readFileSync_utf8_appendFile)
    have g': "getOffset (appendFile p new ?st1) p = length old"
      using g by (simp add: getOffset_def del: registered_fields)
    obtain s k where sk: "s = Start \<or> 0 < k"
      and d: "slice_from (utf8_decode (old @ new)) (length old) = drop k (utf8_run s new)"
      using slice_after_append [of old new] by blast
    have "readNewLines parse (appendFile p new ?st1) a p =
        process_new parse a (drop k (utf8_run s new))
          ((appendFile p new ?st1)
            \<lparr>fileOffsets := AList.update p (length (utf8_decode (old @ new))) (fileOffsets ?st1)\<rparr>)"
      by (simp add: readNewLines_reads [OF r] g' d del: registered_fields)
    with sk show ?thesis by blast
  qed
  show ?thesis
    using w off same app by (intro exI [of _ ?st1]) simp
qed


theorem watchAgent_no_replay_witness:
  "\<not> stopped exFresh
   \<and> files exFresh exLog = Some (RegularFile [0x7B, 0x7D, 0x0A] True)
   \<and> map_of (fileOffsets (projr (watchAgent exTeamDir exFresh ''a''))) exLog = Some 3
   \<and> emitted (readNewLines exParse (projr (watchAgent exTeamDir exFresh ''a'')) ''a'' exLog) = []
   \<and> emitted (readNewLines exParse
         (appendFile exLog [0x5B, 0x5D, 0x0A] (projr (watchAgent exTeamDir exFresh ''a''))) ''a'' exLog)
       = [\<lparr>agentName = ''a'', data = [0x5B, 0x5D], timestamp = ''2025-06-01T12:00:00.000Z''\<rparr>]"
proof -
  have h1: "\<not> stopped exFresh" by (simp add: exFresh_def StatusLineWatcher_def)
  have h2: "exLog = statusLineLogPath exTeamDir (teamName exFresh) ''a''"
    by (simp add: exFresh_def StatusLineWatcher_def exLog_eq)
  have h3: "files exFresh exLog = Some (RegularFile [0x7B, 0x7D, 0x0A] True)"
    by (simp add: exFresh_def StatusLineWatcher_def)
  have e: "emitted exFresh = []" by (simp add: exFresh_def StatusLineWatcher_def)
  have run: "emitted (readNewLines exParse
         (appendFile exLog [0x5B, 0x5D, 0x0A] (projr (watchAgent exTeamDir exFresh ''a''))) ''a'' exLog)
       = [\<lparr>agentName = ''a'', data = [0x5B, 0x5D], timestamp = ''2025-06-01T12:00:00.000Z''\<rparr>]"
    by code_simp
  obtain st1 where "watchAgent exTeamDir exFresh ''a'' = Inr st1"
    and "map_of (fileOffsets st1) exLog = Some (length [0x7B, 0x7D, 0x0A :: byte])"
    and "\<forall>parse. emitted (readNewLines parse st1 ''a'' exLog) = emitted exFresh"
    using watchAgent_no_replay [OF h1 h2 h3] by blast
  then show ?thesis using h1 h3 e run by simp
qed

subsection \<open>Registration when the first read fails\<close>

text \<open>
  The loop of \<^verbatim>\<open>readNewLines\<close> in closed form: the events are the parsed values of the
  lines that are not blank, in order, each with its own reading of the clock, and every
  line that is not blank and does not parse leaves one debug message.
\<close>

lemma update_events_enumerate:
  "update_events parse a clk k ls =
     map (\<lambda>(i, d). \<lparr>agentName = a, data = d, timestamp = clk i\<rparr>)
       (enumerate k (List.map_filter parse (filter (\<lambda>x. trim x \<noteq> []) ls)))"
  by (induction ls arbitrary: k) (simp_all add: map_filter_simps split: option.split)

lemma logged_process_lines:
  "logged (process_lines parse a ls st) =
     logged st @ map (\<lambda>x. (Debug, FailedToParse x)) (filter (\<lambda>x. trim x \<noteq> [] \<and> parse x = None) ls)"
  by (induction ls arbitrary: st) (simp_all split: option.split)

lemma split_nl_lines:
  assumes "\<forall>x \<in> set (ls @ [l]). 0x0A \<notin> set x"
  shows "split_nl (concat (map (\<lambda>x. x @ [0x0A]) ls) @ l) = ls @ [l]"
  using assms by (induction ls) (simp_all add: split_nl_single split_nl_line)

lemma trim_outer:
  assumes "xs \<noteq> []" and "\<not> is_ws (hd xs)" and "\<not> is_ws (last xs)" and "\<forall>c \<in> set w. is_ws c"
  shows "trim (xs @ w) = xs"
proof -
  have s: "trimStart (xs @ w) = xs @ w"
    using assms(1,2) by (cases xs) (simp_all add: trimStart_def)
  have "dropWhile is_ws (rev w @ rev xs) = dropWhile is_ws (rev xs)"
    by (rule dropWhile_append2) (use assms(4) in simp)
  also have "\<dots> = rev xs"
    using assms(1,3) by (cases xs rule: rev_cases) simp_all
  finally have "trimEnd (xs @ w) = xs" by (simp add: trimEnd_def)
  then show ?thesis by (simp add: trim_def s)
qed

lemma hd_lines:
  assumes "hd (ls @ [l]) \<noteq> []"
  shows "hd (concat (map (\<lambda>x. x @ [c]) ls) @ l) = hd (hd (ls @ [l]))"
  using assms by (cases ls) simp_all

text \<open>
  A read that finds the offset 0 and a content of lines \<open>ls\<close>, \<open>l\<close> followed by white
  space \<open>w\<close> handles exactly these lines.
\<close>

lemma readNewLines_lines:
  assumes r: "readFileSync_utf8 st p = Inr (concat (map (\<lambda>x. x @ [0x0A]) ls) @ l @ w)"
    and o: "getOffset st p = 0"
    and nl: "\<forall>x \<in> set (ls @ [l]). 0x0A \<notin> set x"
    and h: "hd (ls @ [l]) \<noteq> []" "\<not> is_ws (hd (hd (ls @ [l])))"
    and e: "l \<noteq> []" "\<not> is_ws (last l)"
    and w: "\<forall>c \<in> set w. is_ws c"
  shows "readNewLines parse st a p =
     process_lines parse a (ls @ [l])
       (st\<lparr>fileOffsets :=
            AList.update p (length (concat (map (\<lambda>x. x @ [0x0A]) ls) @ l @ w)) (fileOffsets st)\<rparr>)"
proof -
  let ?body = "concat (map (\<lambda>x. x @ [0x0A]) ls) @ l"
  have ne: "?body \<noteq> []" using e(1) by simp
  have hd: "\<not> is_ws (hd ?body)" using h hd_lines [of ls l "0x0A"] by simp
  have la: "\<not> is_ws (last ?body)" using e by simp
  have t: "trim (?body @ w) = ?body" using ne hd la w by (rule trim_outer)
  have s: "split_nl ?body = ls @ [l]" using nl by (rule split_nl_lines)
  have pn: "process_new parse a (?body @ w) st' = process_lines parse a (ls @ [l]) st'"
    for st' :: "'a state"
    unfolding process_new_def t s using e(1) by simp
  show ?thesis
    using o pn by (simp add: readNewLines_reads [OF r] slice_from_def)
qed

text \<open>
  C7. The log exists and the read of \<^verbatim>\<open>watchAgent\<close> fails (the file is unreadable, or the
  path is a directory). Then \<^verbatim>\<open>watchAgent\<close> returns, it emits nothing, and the offset it
  stores for the path is 0. Take the state it returns with any later content of the file
  system in which the log can be read: say the log holds the lines \<open>ls\<close> and then \<open>l\<close>,
  each line of \<open>ls\<close> ended by a line feed, followed by white space \<open>w\<close> only, where no
  line contains a line feed and the first and the last line have no white space at their
  outer ends (what \<^verbatim>\<open>trim\<close> leaves of the file). Then \<^verbatim>\<open>readNewLines\<close> takes all of it as
  new and handles it line by line: it emits one update event for every line that is not
  blank and that \<^verbatim>\<open>JSON.parse\<close> accepts, in the order of the lines, with the parsed value
  and successive readings of the clock; it logs one debug message for every line that
  is not blank and that \<^verbatim>\<open>JSON.parse\<close> rejects; and it stores the length of the whole
  content as the offset.
\<close>

theorem watchAgent_read_fails_offset_zero:
  fixes st :: "'j state"
  assumes "\<not> stopped st" and "p = statusLineLogPath td (teamName st) a"
    and "existsSync st p" and "readFileSync st p = Inl err"
  shows "\<exists>st1. watchAgent td st a = Inr st1
       \<and> map_of (fileOffsets st1) p = Some 0
       \<and> emitted st1 = emitted st
       \<and> (\<forall>parse fs ls l w.
            readFileSync_utf8 (st1\<lparr>files := fs\<rparr>) p = Inr (concat (map (\<lambda>x. x @ [0x0A]) ls) @ l @ w)
            \<and> (\<forall>x \<in> set (ls @ [l]). 0x0A \<notin> set x)
            \<and> hd (ls @ [l]) \<noteq> [] \<and> \<not> is_ws (hd (hd (ls @ [l])))
            \<and> l \<noteq> [] \<and> \<not> is_ws (last l)
            \<and> (\<forall>c \<in> set w. is_ws c)
            \<longrightarrow>
            emitted (readNewLines parse (st1\<lparr>files := fs\<rparr>) a p)
              = emitted st @
                  map (\<lambda>(k, d). \<lparr>agentName = a, data = d, timestamp = clock st k\<rparr>)
                    (enumerate (ticks st)
                       (List.map_filter parse (filter (\<lambda>x. trim x \<noteq> []) (ls @ [l]))))
            \<and> logged (readNewLines parse (st1\<lparr>files := fs\<rparr>) a p)
              = logged st1 @
                  map (\<lambda>x. (Debug, FailedToParse x))
                    (filter (\<lambda>x. trim x \<noteq> [] \<and> parse x = None) (ls @ [l]))
            \<and> map_of (fileOffsets (readNewLines parse (st1\<lparr>files := fs\<rparr>) a p)) p
              = Some (length (concat (map (\<lambda>x. x @ [0x0A]) ls) @ l @ w)))"
proof -
  let ?st1 = "registered st a p"
  have w: "watchAgent td st a = Inr ?st1"
    using assms(1,2,3) by (rule watchAgent_existing)
  have off: "map_of (fileOffsets ?st1) p = Some 0"
    using assms(4) by (simp add: initialOffset_def update_conv')
  have lines: "emitted (readNewLines parse (?st1\<lparr>files := fs\<rparr>) a p)
              = emitted st @
                  map (\<lambda>(k, d). \<lparr>agentName = a, data = d, timestamp = clock st k\<rparr>)
                    (enumerate (ticks st)
                       (List.map_filter parse (filter (\<lambda>x. trim x \<noteq> []) (ls @ [l]))))
            \<and> logged (readNewLines parse (?st1\<lparr>files := fs\<rparr>) a p)
              = logged ?st1 @
                  map (\<lambda>x. (Debug, FailedToParse x))
                    (filter (\<lambda>x. trim x \<noteq> [] \<and> parse x = None) (ls @ [l]))
            \<and> map_of (fileOffsets (readNewLines parse (?st1\<lparr>files := fs\<rparr>) a p)) p
              = Some (length (concat (map (\<lambda>x. x @ [0x0A]) ls) @ l @ w))"
    if r: "readFileSync_utf8 (?st1\<lparr>files := fs\<rparr>) p = Inr (concat (map (\<lambda>x. x @ [0x0A]) ls) @ l @ w)"
      and nl: "\<forall>x \<in> set (ls @ [l]). 0x0A \<notin> set x"
      and h: "hd (ls @ [l]) \<noteq> []" "\<not> is_ws (hd (hd (ls @ [l])))"
      and e: "l \<noteq> []" "\<not> is_ws (last l)"
      and ws: "\<forall>c \<in> set w. is_ws c"
    for parse :: "jsstring \<Rightarrow> 'j option" and fs ls l w
  proof -
    have o: "getOffset (?st1\<lparr>files := fs\<rparr>) p = 0"
      using off by (simp add: getOffset_def del: registered_fields)
    note rl = readNewLines_lines [OF r o nl h e ws, of parse a]
    show ?thesis
      unfolding rl
      by (simp add: emitted_process_lines logged_process_lines update_events_enumerate update_conv')
  qed
  show ?thesis
    apply (intro exI [of _ ?st1] conjI allI impI)
    subgoal by (rule w)
    subgoal by (rule off)
    subgoal by simp
    subgoal for parse fs ls l w using lines [of fs ls l w parse] by blast
    subgoal for parse fs ls l w using lines [of fs ls l w parse] by blast
    subgoal for parse fs ls l w using lines [of fs ls l w parse] by blast
    done
qed

text \<open>
  On \<open>exRevoked\<close>: the second registration of \<^verbatim>\<open>a\<close> cannot read the log and stores the
  offset 0 in place of 11 (it cannot attach a watch either; the watch of the first
  registration stays open). The file gets its read permission back and a change is
  reported to the open watch: the three lines are handled from the first one on.
\<close>

theorem watchAgent_read_fails_offset_zero_witness:
  "\<not> stopped exRevoked
   \<and> existsSync exRevoked exLog
   \<and> readFileSync exRevoked exLog = Inl EACCES
   \<and> map_sum id (\<lambda>s. (map_of (fileOffsets s) exLog, emitted s, logged s))
        (run exTeamDir exParse [WatchAgent ''a''] exRevoked)
       = Inr (Some 0, [], [(Error, FailedToWatch ''a'' EACCES)])
   \<and> map_sum id (\<lambda>s. readFileSync_utf8 s exLog)
        (run exTeamDir exParse [WatchAgent ''a'', Chmod exLog True] exRevoked)
       = Inr (Inr [0x7B, 0x7D, 0x0A, 0x6F, 0x6F, 0x70, 0x73, 0x0A, 0x5B, 0x5D, 0x0A])
   \<and> exParse [0x7B, 0x7D] = Some [0x7B, 0x7D]
   \<and> exParse [0x6F, 0x6F, 0x70, 0x73] = None
   \<and> exParse [0x5B, 0x5D] = Some [0x5B, 0x5D]
   \<and> map_sum id (\<lambda>s. (map_of (fileOffsets s) exLog, emitted s, logged s))
        (run exTeamDir exParse [WatchAgent ''a'', Chmod exLog True, Changed exLog] exRevoked)
       = Inr (Some 11,
              [\<lparr>agentName = ''a'', data = [0x7B, 0x7D], timestamp = ''2025-06-01T12:00:00.000Z''\<rparr>,
               \<lparr>agentName = ''a'', data = [0x5B, 0x5D], timestamp = ''2025-06-01T12:00:01.000Z''\<rparr>],
              [(Error, FailedToWatch ''a'' EACCES), (Debug, FailedToParse [0x6F, 0x6F, 0x70, 0x73])])"
proof -
  let ?bs = "[0x7B, 0x7D, 0x0A, 0x6F, 0x6F, 0x70, 0x73, 0x0A, 0x5B, 0x5D, 0x0A] :: byte list"
  let ?fs = "exTree(exLog \<mapsto> RegularFile ?bs True)"
  let ?ls = "[[0x7B, 0x7D], [0x6F, 0x6F, 0x70, 0x73]] :: jsstring list"
  let ?l = "[0x5B, 0x5D] :: jsstring"
  let ?w = "[0x0A] :: jsstring"
  have h1: "\<not> stopped exRevoked" by (simp add: exRevoked_def StatusLineWatcher_def)
  have h2: "exLog = statusLineLogPath exTeamDir (teamName exRevoked) ''a''"
    by (simp add: exRevoked_def StatusLineWatcher_def exLog_eq)
  have h3: "existsSync exRevoked exLog"
    by (simp add: exRevoked_def StatusLineWatcher_def existsSync_def)
  have h4: "readFileSync exRevoked exLog = Inl EACCES"
    by (simp add: exRevoked_def StatusLineWatcher_def readFileSync_def exLog_def)
  have f: "files exRevoked = exTree(exLog \<mapsto> RegularFile ?bs False)"
    and e: "emitted exRevoked = []" and l: "logged exRevoked = []"
    and c: "clock exRevoked = exClock" and t: "ticks exRevoked = 0"
    and lv: "live exRevoked = [\<lparr>wid = 0, wagent = ''a'', wpath = exLog\<rparr>]"
    by (simp_all add: exRevoked_def StatusLineWatcher_def)
  obtain st1 where w: "watchAgent exTeamDir exRevoked ''a'' = Inr st1"
    and o: "map_of (fileOffsets st1) exLog = Some 0"
    and e1: "emitted st1 = emitted exRevoked"
    and all: "\<forall>parse fs ls l w.
            readFileSync_utf8 (st1\<lparr>files := fs\<rparr>) exLog = Inr (concat (map (\<lambda>x. x @ [0x0A]) ls) @ l @ w)
            \<and> (\<forall>x \<in> set (ls @ [l]). 0x0A \<notin> set x)
            \<and> hd (ls @ [l]) \<noteq> [] \<and> \<not> is_ws (hd (hd (ls @ [l])))
            \<and> l \<noteq> [] \<and> \<not> is_ws (last l)
            \<and> (\<forall>c \<in> set w. is_ws c)
            \<longrightarrow>
            emitted (readNewLines parse (st1\<lparr>files := fs\<rparr>) ''a'' exLog)
              = emitted exRevoked @
                  map (\<lambda>(k, d). \<lparr>agentName = ''a'', data = d, timestamp = clock exRevoked k\<rparr>)
                    (enumerate (ticks exRevoked)
                       (List.map_filter parse (filter (\<lambda>x. trim x \<noteq> []) (ls @ [l]))))
            \<and> logged (readNewLines parse (st1\<lparr>files := fs\<rparr>) ''a'' exLog)
              = logged st1 @
                  map (\<lambda>x. (Debug, FailedToParse x))
                    (filter (\<lambda>x. trim x \<noteq> [] \<and> parse x = None) (ls @ [l]))
            \<and> map_of (fileOffsets (readNewLines parse (st1\<lparr>files := fs\<rparr>) ''a'' exLog)) exLog
              = Some (length (concat (map (\<lambda>x. x @ [0x0A]) ls) @ l @ w))"
    using watchAgent_read_fails_offset_zero [OF h1 h2 h3 h4] by (elim exE conjE)
  have we: "watchError exRevoked exLog = Some EACCES"
    using h3 by (simp add: watchError_def unreadable_def f)
  have s1: "st1 = registered exRevoked ''a'' exLog"
    using watchAgent_existing [OF h1 h2 h3] w by simp
  have l1: "logged st1 = [(Error, FailedToWatch ''a'' EACCES)]"
    and lv1: "live st1 = [\<lparr>wid = 0, wagent = ''a'', wpath = exLog\<rparr>]"
    and f1: "files st1 = exTree(exLog \<mapsto> RegularFile ?bs False)"
    unfolding s1 by (simp_all add: registered_def we l lv f)
  have ch: "chmodFile exLog True st1 = st1\<lparr>files := ?fs\<rparr>"
    by (simp add: chmodFile_def f1)
  have d: "utf8_decode ?bs = concat (map (\<lambda>x. x @ [0x0A]) ?ls) @ ?l @ ?w" by code_simp
  have r: "readFileSync_utf8 (st1\<lparr>files := ?fs\<rparr>) exLog = Inr (concat (map (\<lambda>x. x @ [0x0A]) ?ls) @ ?l @ ?w)"
    by (simp add: readFileSync_utf8_def readFileSync_def exLog_def d)
  have ws: "is_ws (0x0A :: 16 word)" "\<not> is_ws (0x7B :: 16 word)" "\<not> is_ws (0x5D :: 16 word)"
    by code_simp+
  have hyps: "(\<forall>x \<in> set (?ls @ [?l]). 0x0A \<notin> set x)
            \<and> hd (?ls @ [?l]) \<noteq> [] \<and> \<not> is_ws (hd (hd (?ls @ [?l])))
            \<and> ?l \<noteq> [] \<and> \<not> is_ws (last ?l)
            \<and> (\<forall>c \<in> set ?w. is_ws c)"
    using ws by simp
  have p: "exParse [0x7B, 0x7D] = Some [0x7B, 0x7D]" "exParse [0x6F, 0x6F, 0x70, 0x73] = None"
    "exParse [0x5B, 0x5D] = Some [0x5B, 0x5D]"
    by code_simp+
  have ev: "map (\<lambda>(k, d). \<lparr>agentName = ''a'', data = d, timestamp = exClock k\<rparr>)
                    (enumerate 0
                       (List.map_filter exParse (filter (\<lambda>x. trim x \<noteq> []) (?ls @ [?l]))))
       = [\<lparr>agentName = ''a'', data = [0x7B, 0x7D], timestamp = ''2025-06-01T12:00:00.000Z''\<rparr>,
          \<lparr>agentName = ''a'', data = [0x5B, 0x5D], timestamp = ''2025-06-01T12:00:01.000Z''\<rparr>]"
    by code_simp
  have lg: "map (\<lambda>x. (Debug, FailedToParse x))
                    (filter (\<lambda>x. trim x \<noteq> [] \<and> exParse x = None) (?ls @ [?l]))
       = [(Debug, FailedToParse [0x6F, 0x6F, 0x70, 0x73])]"
    by code_simp
  have res: "emitted (readNewLines exParse (st1\<lparr>files := ?fs\<rparr>) ''a'' exLog)
       = [\<lparr>agentName = ''a'', data = [0x7B, 0x7D], timestamp = ''2025-06-01T12:00:00.000Z''\<rparr>,
          \<lparr>agentName = ''a'', data = [0x5B, 0x5D], timestamp = ''2025-06-01T12:00:01.000Z''\<rparr>]
     \<and> logged (readNewLines exParse (st1\<lparr>files := ?fs\<rparr>) ''a'' exLog)
       = [(Error, FailedToWatch ''a'' EACCES), (Debug, FailedToParse [0x6F, 0x6F, 0x70, 0x73])]
     \<and> map_of (fileOffsets (readNewLines exParse (st1\<lparr>files := ?fs\<rparr>) ''a'' exLog)) exLog = Some 11"
    using all [rule_format, of ?fs ?ls ?l ?w exParse, OF conjI [OF r hyps]]
    unfolding e c t l1 ev lg by simp
  have fc: "fileChanged exParse exLog (st1\<lparr>files := ?fs\<rparr>)
      = readNewLines exParse (st1\<lparr>files := ?fs\<rparr>) ''a'' exLog"
    using fileChanged_single [of exLog "st1\<lparr>files := ?fs\<rparr>" "\<lparr>wid = 0, wagent = ''a'', wpath = exLog\<rparr>" exParse]
    by (simp add: lv1)
  have run1: "run exTeamDir exParse [WatchAgent ''a''] exRevoked = Inr st1"
    by (simp add: w)
  have run2: "run exTeamDir exParse [WatchAgent ''a'', Chmod exLog True] exRevoked
      = Inr (st1\<lparr>files := ?fs\<rparr>)"
    by (simp add: w ch)
  have run3: "run exTeamDir exParse [WatchAgent ''a'', Chmod exLog True, Changed exLog] exRevoked
      = Inr (readNewLines exParse (st1\<lparr>files := ?fs\<rparr>) ''a'' exLog)"
    by (simp add: w ch fc)
  have r': "readFileSync_utf8 (st1\<lparr>files := ?fs\<rparr>) exLog
      = Inr [0x7B, 0x7D, 0x0A, 0x6F, 0x6F, 0x70, 0x73, 0x0A, 0x5B, 0x5D, 0x0A]"
    using r by simp
  show ?thesis
    unfolding run1 run2 run3
    using h1 h3 h4 o e1 e l1 p res r' by simp
qed

subsection \<open>Registration when the watch cannot be attached\<close>











subsection \<open>The directory of the logs\<close>

lemma mkdirSync_recursive_ok:
  assumes "\<forall>q \<in> set (prefixes dir). q = [] \<or> files st q = None \<or> files st q = Some Directory"
  shows "mkdirSync_recursive st dir =
     Inr (st\<lparr>files := (\<lambda>q. if q \<noteq> [] \<and> prefix q dir \<and> files st q = None
                             then Some Directory else files st q)\<rparr>)"
proof -
  have "\<not> (\<exists>q \<in> set (prefixes dir). q \<noteq> [] \<and> files st q \<noteq> None \<and> files st q \<noteq> Some Directory)"
    using assms by meson
  then show ?thesis unfolding mkdirSync_recursive_def by (simp only: if_False)
qed

lemma mkdirSync_recursive_result:
  assumes "mkdirSync_recursive st dir = Inr st'"
  shows "st' = st\<lparr>files := (\<lambda>q. if q \<noteq> [] \<and> prefix q dir \<and> files st q = None
                             then Some Directory else files st q)\<rparr>"
proof -
  define C where "C \<longleftrightarrow> (\<exists>q \<in> set (prefixes dir). q \<noteq> [] \<and> files st q \<noteq> None \<and> files st q \<noteq> Some Directory)"
  have m: "mkdirSync_recursive st dir = (if C then Inl ENOTDIR else
      Inr (st\<lparr>files := (\<lambda>q. if q \<noteq> [] \<and> prefix q dir \<and> files st q = None
                             then Some Directory else files st q)\<rparr>))"
    by (simp only: mkdirSync_recursive_def C_def)
  show ?thesis
  proof (cases C)
    case True
    then have "mkdirSync_recursive st dir = Inl ENOTDIR" by (simp only: m if_True)
    then show ?thesis using assms by simp
  next
    case False
    then have "mkdirSync_recursive st dir = Inr (st\<lparr>files := (\<lambda>q. if q \<noteq> [] \<and> prefix q dir \<and> files st q = None
                             then Some Directory else files st q)\<rparr>)" by (simp only: m if_False)
    then show ?thesis using assms by (simp only: sum.inject)
  qed
qed

lemma ensureDir_again:
  assumes "ensureDir td st = Inr st'"
  shows "ensureDir td st' = Inr st'"
proof (cases "existsSync st (statusLineDir td (teamName st))")
  case True
  then have "st' = st" using assms by (simp add: ensureDir_def)
  then show ?thesis using True by (simp add: ensureDir_def)
next
  case False
  let ?dir = "statusLineDir td (teamName st)"
  have m: "mkdirSync_recursive st ?dir = Inr st'"
    using assms False by (simp add: ensureDir_def)
  note r = mkdirSync_recursive_result [OF m]
  have t: "teamName st' = teamName st" by (subst r) simp
  have "files st ?dir = None" using False by (simp add: existsSync_def)
  then have "files st' ?dir = Some Directory" by (subst r) simp
  then have "existsSync st' (statusLineDir td (teamName st'))"
    by (simp add: existsSync_def t)
  then show ?thesis by (simp add: ensureDir_def)
qed

text \<open>
  C9. \<^verbatim>\<open>ensureDir\<close> on a state in which the directory exists returns that state. A
  state that \<^verbatim>\<open>ensureDir\<close> has returned is returned unchanged by a second call (and a call
  that throws leaves the state as it was, so that a second call throws again). When
  the directory is missing and no regular file lies on the way to it, the call
  returns; afterwards the directory and all its parents are directories, every other
  path is as before, and only the file tree has changed.
\<close>

theorem ensureDir_idempotent:
  fixes st :: "'j state"
  assumes "dir = statusLineDir td (teamName st)"
  shows "(existsSync st dir \<longrightarrow> ensureDir td st = Inr st)
       \<and> (\<forall>st'. ensureDir td st = Inr st' \<longrightarrow> ensureDir td st' = Inr st')
       \<and> (\<not> existsSync st dir
            \<and> (\<forall>q \<in> set (prefixes dir). q = [] \<or> files st q = None \<or> files st q = Some Directory) \<longrightarrow>
          (\<exists>st'. ensureDir td st = Inr st'
             \<and> (\<forall>q. prefix q dir \<longrightarrow> is_dir st' q)
             \<and> (\<forall>q. \<not> prefix q dir \<longrightarrow> files st' q = files st q)
             \<and> st' = st\<lparr>files := files st'\<rparr>))"
proof (intro conjI impI allI)
  assume "existsSync st dir"
  then show "ensureDir td st = Inr st" using assms by (simp add: ensureDir_def)
next
  fix st' assume "ensureDir td st = Inr st'"
  then show "ensureDir td st' = Inr st'" by (rule ensureDir_again)
next
  assume a: "\<not> existsSync st dir
      \<and> (\<forall>q \<in> set (prefixes dir). q = [] \<or> files st q = None \<or> files st q = Some Directory)"
  let ?F = "\<lambda>q. if q \<noteq> [] \<and> prefix q dir \<and> files st q = None then Some Directory else files st q"
  have m: "mkdirSync_recursive st dir = Inr (st\<lparr>files := ?F\<rparr>)"
    using a by (intro mkdirSync_recursive_ok) meson
  have e: "ensureDir td st = Inr (st\<lparr>files := ?F\<rparr>)"
    using a m assms by (simp add: ensureDir_def)
  have d: "is_dir (st\<lparr>files := ?F\<rparr>) q" if "prefix q dir" for q
  proof (cases "q = []")
    case True
    then show ?thesis by (simp add: is_dir_def)
  next
    case False
    have "q \<in> set (prefixes dir)" using that by (simp add: in_set_prefixes)
    then have "files st q = None \<or> files st q = Some Directory" using a False by meson
    then show ?thesis using that False by (auto simp add: is_dir_def)
  qed
  show "\<exists>st'. ensureDir td st = Inr st'
             \<and> (\<forall>q. prefix q dir \<longrightarrow> is_dir st' q)
             \<and> (\<forall>q. \<not> prefix q dir \<longrightarrow> files st' q = files st q)
             \<and> st' = st\<lparr>files := files st'\<rparr>"
    using e d by (intro exI [of _ "st\<lparr>files := ?F\<rparr>"]) simp
qed

theorem ensureDir_idempotent_witness:
  "\<not> existsSync exBare (statusLineDir exTeamDir (teamName exBare))
   \<and> prefixes (statusLineDir exTeamDir (teamName exBare))
       = [[], [''home''], [''home'', ''teams''], [''home'', ''teams'', ''t''],
          [''home'', ''teams'', ''t'', ''statusline'']]
   \<and> files exBare [''home''] = Some Directory
   \<and> files exBare [''home'', ''teams''] = None
   \<and> files exBare [''home'', ''teams'', ''t''] = None
   \<and> files exBare [''home'', ''teams'', ''t'', ''statusline''] = None
   \<and> is_dir (projr (ensureDir exTeamDir exBare)) [''home'', ''teams'', ''t'', ''statusline'']
   \<and> is_dir (projr (ensureDir exTeamDir exBare)) [''home'', ''teams'', ''t'']
   \<and> is_dir (projr (ensureDir exTeamDir exBare)) [''home'', ''teams'']
   \<and> ensureDir exTeamDir (projr (ensureDir exTeamDir exBare)) = Inr (projr (ensureDir exTeamDir exBare))
   \<and> existsSync exFresh (statusLineDir exTeamDir (teamName exFresh))
   \<and> ensureDir exTeamDir exFresh = Inr exFresh"
proof -
  let ?dir = "statusLineDir exTeamDir (teamName exBare)"
  have dir: "?dir = [''home'', ''teams'', ''t'', ''statusline'']"
    by (simp add: statusLineDir_def join_def exTeamDir_def exBare_def StatusLineWatcher_def)
  have h1: "\<not> existsSync exBare ?dir" by code_simp
  have pre: "prefixes ?dir
       = [[], [''home''], [''home'', ''teams''], [''home'', ''teams'', ''t''],
          [''home'', ''teams'', ''t'', ''statusline'']]"
    by (simp add: dir)
  have fs: "files exBare [''home''] = Some Directory \<and> files exBare [''home'', ''teams''] = None
      \<and> files exBare [''home'', ''teams'', ''t''] = None
      \<and> files exBare [''home'', ''teams'', ''t'', ''statusline''] = None"
    by (simp add: exBare_def StatusLineWatcher_def)
  have h2: "\<forall>q \<in> set (prefixes ?dir). q = [] \<or> files exBare q = None \<or> files exBare q = Some Directory"
    unfolding pre using fs by simp
  have h3: "existsSync exFresh (statusLineDir exTeamDir (teamName exFresh))" by code_simp
  note t = ensureDir_idempotent [where td = exTeamDir and st = exBare, OF refl]
  from t [THEN conjunct2, THEN conjunct2, rule_format, OF conjI [OF h1 h2]]
  obtain st' where e: "ensureDir exTeamDir exBare = Inr st'"
    and d: "\<forall>q. prefix q ?dir \<longrightarrow> is_dir st' q"
    by (elim exE conjE)
  note again = t [THEN conjunct2, THEN conjunct1, rule_format, OF e]
  have p: "is_dir st' [''home'', ''teams'', ''t'', ''statusline''] \<and> is_dir st' [''home'', ''teams'', ''t'']
      \<and> is_dir st' [''home'', ''teams'']"
    using d by (simp add: dir)
  show ?thesis
    using h1 pre fs h3 e p again
      ensureDir_idempotent [where td = exTeamDir and st = exFresh, OF refl, THEN conjunct1]
    by simp
qed

subsection \<open>Offsets in bytes and in code units\<close>

text \<open>
  After a read the offset is the length of the decoded content. It never exceeds the
  number of bytes of the file, and equals it when every byte is ASCII.
\<close>

lemma utf8_run_ascii: "\<forall>b \<in> set bs. b \<le> 0x7F \<Longrightarrow> utf8_run Start bs = map ucast bs"
  by (induction bs) (simp_all add: utf8_lead_def)

lemma readNewLines_offset_ascii:
  assumes "readFileSync st p = Inr bs" and "\<forall>b \<in> set bs. b \<le> 0x7F"
  shows "map_of (fileOffsets (readNewLines parse st a p)) p = Some (length bs)"
proof -
  have "readFileSync_utf8 st p = Inr (map ucast bs)"
    using assms by (simp add: readFileSync_utf8_def utf8_decode_def utf8_run_ascii)
  then show ?thesis by (simp add: readNewLines_reads update_conv')
qed

lemma readNewLines_offset_le:
  assumes "readFileSync st p = Inr bs"
  shows "\<exists>n. map_of (fileOffsets (readNewLines parse st a p)) p = Some n \<and> n \<le> length bs"
proof -
  have "readFileSync_utf8 st p = Inr (utf8_decode bs)"
    using assms by (simp add: readFileSync_utf8_def)
  then show ?thesis by (simp add: readNewLines_reads update_conv' length_utf8_decode)
qed

text \<open>
  C2. The offset that \<^verbatim>\<open>watchAgent\<close> stores counts bytes (the length of a \<^verbatim>\<open>Buffer\<close>),
  the offset that \<^verbatim>\<open>readNewLines\<close> stores counts UTF-16 code units (the length of the
  decoded string). The log of \<open>exAccents\<close> has 11 bytes, which decode to 7 code units.
  The registration stores the offset 11. The producer appends three bytes, a complete
  line, and the change is reported: the read stores the offset 10 while the file has
  14 bytes. The offset has decreased although the file has only grown, it is not the
  length of the file, and the appended line is not emitted.
\<close>

theorem readNewLines_offset_decreases:
  "map_sum id (\<lambda>s. map_of (fileOffsets s) exLog)
     (run exTeamDir exParse [WatchAgent ''a''] exAccents) = Inr (Some 11)
   \<and> map_sum id (\<lambda>s. (map_of (fileOffsets s) exLog, map_sum id length (readFileSync s exLog), emitted s))
       (run exTeamDir exParse [WatchAgent ''a'', Append exLog [0x7B, 0x7D, 0x0A], Changed exLog] exAccents)
     = Inr (Some 10, Inr 14, [])"
proof -
  let ?old = "[0x22, 0xC3, 0xA9, 0xC3, 0xA9, 0xC3, 0xA9, 0xC3, 0xA9, 0x22, 0x0A] :: byte list"
  let ?new = "[0x7B, 0x7D, 0x0A] :: byte list"
  let ?st1 = "registered exAccents ''a'' exLog"
  let ?st2 = "appendFile exLog ?new ?st1"
  let ?st3 = "?st2\<lparr>fileOffsets := AList.update exLog 10 (fileOffsets ?st2)\<rparr>"
  have h: "\<not> stopped exAccents" by (simp add: exAccents_def StatusLineWatcher_def)
  have p: "exLog = statusLineLogPath exTeamDir (teamName exAccents) ''a''"
    by (simp add: exAccents_def StatusLineWatcher_def exLog_eq)
  have f: "files exAccents exLog = Some (RegularFile ?old True)"
    by (simp add: exAccents_def StatusLineWatcher_def)
  have ne: "exLog \<noteq> []" by (simp add: exLog_def)
  have e: "existsSync exAccents exLog" using f by (simp add: existsSync_def)
  have w: "watchAgent exTeamDir exAccents ''a'' = Inr ?st1"
    using h p e by (rule watchAgent_existing)
  have io: "initialOffset exAccents exLog = 11"
    using f ne by (simp add: initialOffset_def readFileSync_def)
  have o1: "map_of (fileOffsets ?st1) exLog = Some 11"
    by (simp add: io update_conv')
  have f1: "files ?st1 exLog = Some (RegularFile ?old True)" using f by simp
  have l1: "live ?st1 = [\<lparr>wid = 0, wagent = ''a'', wpath = exLog\<rparr>]"
    by (simp add: registered_def watchError_def unreadable_def existsSync_def exAccents_def
        StatusLineWatcher_def)
  have d: "utf8_decode (?old @ ?new) = [0x22, 0xE9, 0xE9, 0xE9, 0xE9, 0x22, 0x0A, 0x7B, 0x7D, 0x0A]"
    by (simp add: utf8_decode_def utf8_lead_def utf16_units_def)
  have r: "readFileSync_utf8 ?st2 exLog = Inr [0x22, 0xE9, 0xE9, 0xE9, 0xE9, 0x22, 0x0A, 0x7B, 0x7D, 0x0A]"
    using readFileSync_utf8_appendFile [OF f1 ne, of ?new] by (simp only: d)
  have g: "getOffset ?st2 exLog = 11"
    using o1 by (simp add: getOffset_def del: registered_fields)
  have rd: "readNewLines exParse ?st2 ''a'' exLog = ?st3"
    by (simp add: readNewLines_reads [OF r] g slice_from_def eval_nat_numeral
        del: registered_fields appendFile_fields)
  have ch: "fileChanged exParse exLog ?st2 = ?st3"
    using fileChanged_single [of exLog ?st2 "\<lparr>wid = 0, wagent = ''a'', wpath = exLog\<rparr>" exParse] l1 rd
    by simp
  have o3: "map_of (fileOffsets ?st3) exLog = Some 10"
    by (simp add: update_conv' del: registered_fields appendFile_fields)
  have f3: "files ?st3 exLog = Some (RegularFile (?old @ ?new) True)"
    using f1 by (simp add: appendFile_def del: registered_fields)
  have r3: "readFileSync ?st3 exLog = Inr (?old @ ?new)"
    using f3 ne by (simp add: readFileSync_def del: registered_fields appendFile_fields)
  have e3: "emitted ?st3 = []"
    by (simp add: exAccents_def StatusLineWatcher_def)
  have run1: "run exTeamDir exParse [WatchAgent ''a''] exAccents = Inr ?st1"
    by (simp add: w)
  have run3: "run exTeamDir exParse [WatchAgent ''a'', Append exLog ?new, Changed exLog] exAccents = Inr ?st3"
    by (simp add: w ch del: registered_fields appendFile_fields)
  show ?thesis
    unfolding run1 run3 using o1 o3 r3 e3 by (simp del: registered_fields appendFile_fields)
qed

subsection \<open>After \<^verbatim>\<open>stop\<close>\<close>

text \<open>
  Once the flag is set, \<^verbatim>\<open>watchAgent\<close> returns the state as it is, and no method resets
  the flag. \<^verbatim>\<open>stop\<close> closes the watches that the map holds: when every open watch is in
  the map, none is left and a change of a file reaches no listener.
\<close>

lemma live_fold_close: "live (fold close hs st) = filter (\<lambda>w. wid w \<notin> set hs) (live st)"
  by (induction hs arbitrary: st) (auto intro: filter_cong)

lemma stop_closes_tracked:
  assumes "wid ` set (live st) \<subseteq> snd ` set (watchers st)"
  shows "live (stop st) = []"
  using assms by (auto simp add: stop_def Let_def live_fold_close filter_empty_conv)

lemma fileChanged_no_watch: "live st = [] \<Longrightarrow> fileChanged parse p st = st"
  by (simp add: fileChanged_def)

lemma watchAgent_stopped: "stopped st \<Longrightarrow> watchAgent td st a = Inr st"
  by (simp add: watchAgent_def)

lemma stop_fields:
  "stopped (stop st)" "watchers (stop st) = []" "fileOffsets (stop st) = []"
  "emitted (stop st) = emitted st" "files (stop st) = files st"
proof -
  have f: "stopped (fold close hs s) = stopped s \<and> emitted (fold close hs s) = emitted s
      \<and> files (fold close hs s) = files s" for hs and s :: "'a state"
    by (induction hs arbitrary: s) simp_all
  show "stopped (stop st)" "watchers (stop st) = []" "fileOffsets (stop st) = []"
    "emitted (stop st) = emitted st" "files (stop st) = files st"
    by (simp_all add: stop_def Let_def f)
qed

lemma stop_silences_tracked:
  assumes "wid ` set (live st) \<subseteq> snd ` set (watchers st)"
  shows "emitted (fileChanged parse p (appendFile q bs (stop st))) = emitted st"
proof -
  have "live (appendFile q bs (stop st)) = []"
    using stop_closes_tracked [OF assms] by simp
  then have "fileChanged parse p (appendFile q bs (stop st)) = appendFile q bs (stop st)"
    by (rule fileChanged_no_watch)
  then show ?thesis by (simp add: stop_fields)
qed

text \<open>
  C4. A second \<^verbatim>\<open>watchAgent\<close> for a name puts the new handle in the place of the old one
  without closing the old one: after two registrations of \<^verbatim>\<open>a\<close> on \<open>exFresh\<close> the map
  holds the handle 1 and the watches 0 and 1 are open. \<^verbatim>\<open>stop\<close> closes the watch 1, which
  is in the map; the watch 0 stays open. When the file changes after \<^verbatim>\<open>stop\<close>, the
  listener of the watch 0 runs \<^verbatim>\<open>readNewLines\<close>, which does not look at the flag; the
  offsets were cleared, so it emits an update event for every line of the file, the
  old line and the appended one, and stores an offset again.
\<close>

theorem stop_leaves_replaced_watch_open:
  "map_sum id (\<lambda>s. (map_of (watchers s) ''a'', map wid (live s)))
     (run exTeamDir exParse [WatchAgent ''a'', WatchAgent ''a''] exFresh) = Inr (Some 1, [0, 1])
   \<and> map_sum id (\<lambda>s. (stopped s, watchers s, fileOffsets s, live s, emitted s))
       (run exTeamDir exParse [WatchAgent ''a'', WatchAgent ''a'', Stop] exFresh)
     = Inr (True, [], [], [\<lparr>wid = 0, wagent = ''a'', wpath = exLog\<rparr>], [])
   \<and> map_sum id (\<lambda>s. (stopped s, fileOffsets s, emitted s))
       (run exTeamDir exParse
          [WatchAgent ''a'', WatchAgent ''a'', Stop, Append exLog [0x5B, 0x5D, 0x0A], Changed exLog] exFresh)
     = Inr (True, [(exLog, 6)],
            [\<lparr>agentName = ''a'', data = [0x7B, 0x7D], timestamp = ''2025-06-01T12:00:00.000Z''\<rparr>,
             \<lparr>agentName = ''a'', data = [0x5B, 0x5D], timestamp = ''2025-06-01T12:00:01.000Z''\<rparr>])"
  by code_simp

end
